theory Spec2Isabelle
  imports Complex_Main
begin

section \<open>Text\<close>

text \<open>
  A Python \<open>str\<close> is modelled as a \<open>string\<close> whose characters are the code points
  below 256. \<open>py_isspace\<close> is \<open>str.isspace\<close> on one such character: the Unicode
  whitespace below 256 is TAB, LF, VT, FF, CR, the separators 0x1C..0x1F, SPACE,
  NEL (0x85) and NBSP (0xA0).
\<close>

definition py_isspace :: "char \<Rightarrow> bool" where
  "py_isspace c = (of_char c \<in> set [9, 10, 11, 12, 13, 28, 29, 30, 31, 32, 133, 160 :: nat])"

text \<open>\<open>s.strip()\<close>: leading and trailing whitespace removed.\<close>

definition py_strip :: "string \<Rightarrow> string" where
  "py_strip s = rev (dropWhile py_isspace (rev (dropWhile py_isspace s)))"

text \<open>\<open>s.replace('\n', '')\<close>: every line feed removed.\<close>

definition remove_newlines :: "string \<Rightarrow> string" where
  "remove_newlines s = filter (\<lambda>c. c \<noteq> CHR 0x0A) s"

definition is_digit :: "char \<Rightarrow> bool" where
  "is_digit c = (c \<in> set ''0123456789'')"

text \<open>\<open>Py_ISSPACE\<close> of CPython: the six ASCII whitespace characters.\<close>

definition ascii_isspace :: "char \<Rightarrow> bool" where
  "ascii_isspace c = (of_char c \<in> set [9, 10, 11, 12, 13, 32 :: nat])"

text \<open>\<open>Py_TOLOWER\<close> of CPython: the lower case of an ASCII capital, any other character as it is.\<close>

definition ascii_lower :: "char \<Rightarrow> char" where
  "ascii_lower c =
     (case map_of (zip ''ABCDEFGHIJKLMNOPQRSTUVWXYZ'' ''abcdefghijklmnopqrstuvwxyz'') c of
        Some l \<Rightarrow> l
      | None \<Rightarrow> c)"

section \<open>Binary64 floating point\<close>

text \<open>
  A Python \<open>float\<close> is an IEEE 754 binary64 value. \<open>Fin q\<close> is the finite value
  \<open>q\<close> (with \<open>Fin 0\<close> the positive zero), \<open>NegZero\<close> is \<open>-0.0\<close>. Every operation
  below rounds its exact result to the nearest binary64 value, ties to even, as the
  hardware does.
\<close>

datatype pyfloat = Fin rat | NegZero | PosInf | NegInf | NaN

definition is_neg :: "pyfloat \<Rightarrow> bool" where
  "is_neg x = (case x of Fin q \<Rightarrow> q < 0 | NegZero \<Rightarrow> True | NegInf \<Rightarrow> True | _ \<Rightarrow> False)"

definition fzero :: "bool \<Rightarrow> pyfloat" where
  "fzero neg = (if neg then NegZero else Fin 0)"

definition finf :: "bool \<Rightarrow> pyfloat" where
  "finf neg = (if neg then NegInf else PosInf)"

definition round_half_even :: "rat \<Rightarrow> int" where
  "round_half_even q =
     (let f = \<lfloor>q\<rfloor>; d = q - of_int f
      in if d < 1 / 2 then f
         else if 1 / 2 < d then f + 1
         else if even f then f else f + 1)"

definition pow2 :: "int \<Rightarrow> rat" where
  "pow2 e = (if 0 \<le> e then 2 ^ nat e else 1 / 2 ^ nat (- e))"

definition pow10 :: "int \<Rightarrow> rat" where
  "pow10 e = (if 0 \<le> e then 10 ^ nat e else 1 / 10 ^ nat (- e))"

text \<open>\<open>int.bit_length\<close>: the number of binary digits of a positive integer.\<close>

function bit_length :: "int \<Rightarrow> int" where
  "bit_length n = (if n \<le> 0 then 0 else 1 + bit_length (n div 2))"
  by pat_completeness auto
termination
  by (relation "measure nat") auto

declare bit_length.simps [simp del]

text \<open>For \<open>q > 0\<close>, \<open>ilog2 q\<close> is the exponent \<open>e\<close> with \<open>2^e \<le> q < 2^(e+1)\<close>.\<close>

definition ilog2 :: "rat \<Rightarrow> int" where
  "ilog2 q =
     (let (a, b) = quotient_of q;
          d = bit_length a - bit_length b
      in if pow2 d \<le> q then d else d - 1)"

text \<open>
  Rounding an exact value to binary64: 53 significant bits, the least exponent
  \<open>-1022\<close> (below it the values are subnormal, spaced \<open>2^-1074\<close> apart), overflow to
  an infinity. \<open>neg\<close> is the sign an exact zero gets.
\<close>

definition to_binary64 :: "bool \<Rightarrow> rat \<Rightarrow> pyfloat" where
  "to_binary64 neg q =
     (if q = 0 then fzero neg
      else
        let e = max (ilog2 \<bar>q\<bar>) (- 1022);
            u = pow2 (e - 52);
            v = of_int (round_half_even (q / u)) * u
        in if 1024 \<le> ilog2 \<bar>v\<bar> then finf (q < 0)
           else if v = 0 then fzero (q < 0)
           else Fin v)"

definition fval :: "pyfloat \<Rightarrow> rat" where
  "fval x = (case x of Fin q \<Rightarrow> q | _ \<Rightarrow> 0)"

definition is_inf :: "pyfloat \<Rightarrow> bool" where
  "is_inf x = (x = PosInf \<or> x = NegInf)"

definition is_fzero :: "pyfloat \<Rightarrow> bool" where
  "is_fzero x = (x = Fin 0 \<or> x = NegZero)"

text \<open>\<open>x * y\<close> on floats.\<close>

definition fmul :: "pyfloat \<Rightarrow> pyfloat \<Rightarrow> pyfloat" where
  "fmul x y =
     (if x = NaN \<or> y = NaN then NaN
      else if is_inf x \<or> is_inf y then
        (if is_fzero x \<or> is_fzero y then NaN else finf (is_neg x \<noteq> is_neg y))
      else to_binary64 (is_neg x \<noteq> is_neg y) (fval x * fval y))"

text \<open>\<open>x / y\<close> as numpy's \<open>true_divide\<close> computes it (a zero divisor gives an infinity or NaN).\<close>

definition fdiv :: "pyfloat \<Rightarrow> pyfloat \<Rightarrow> pyfloat" where
  "fdiv x y =
     (if x = NaN \<or> y = NaN then NaN
      else if is_inf x then (if is_inf y then NaN else finf (is_neg x \<noteq> is_neg y))
      else if is_inf y then fzero (is_neg x \<noteq> is_neg y)
      else if is_fzero y then (if is_fzero x then NaN else finf (is_neg x \<noteq> is_neg y))
      else to_binary64 (is_neg x \<noteq> is_neg y) (fval x / fval y))"

text \<open>\<open>numpy.rint\<close>: the nearest integer, ties to even, the sign kept.\<close>

definition frint :: "pyfloat \<Rightarrow> pyfloat" where
  "frint x =
     (case x of
        Fin q \<Rightarrow> (let r = round_half_even q in if r = 0 then fzero (q < 0) else Fin (of_int r))
      | _ \<Rightarrow> x)"

text \<open>
  \<open>numpy.round(x, 2)\<close> on a float: numpy multiplies by \<open>10.0 ** 2\<close>, applies
  \<open>rint\<close> and divides by \<open>10.0 ** 2\<close>, each step in binary64.
\<close>

definition np_round2 :: "pyfloat \<Rightarrow> pyfloat" where
  "np_round2 x = fdiv (frint (fmul x (Fin 100))) (Fin 100)"

section \<open>The builtin \<open>float\<close> on a string\<close>

text \<open>
  \<open>float(s)\<close> of CPython: a string that is not pure ASCII first has each whitespace
  character above 126 replaced by a space and is cut after the first other character
  above 126, which becomes \<open>?\<close>.
\<close>

fun transform_to_ascii :: "string \<Rightarrow> string" where
  "transform_to_ascii [] = []"
| "transform_to_ascii (c # cs) =
     (if (of_char c :: nat) < 127 then c # transform_to_ascii cs
      else if py_isspace c then CHR '' '' # transform_to_ascii cs
      else ''?'')"

definition to_ascii :: "string \<Rightarrow> string" where
  "to_ascii s = (if list_all (\<lambda>c. (of_char c :: nat) < 128) s then s else transform_to_ascii s)"

text \<open>
  Underscores: one is allowed only between two digits; they are removed before the
  number is read. \<open>prev\<close> is the character before the current one.
\<close>

fun drop_underscores :: "char \<Rightarrow> string \<Rightarrow> string option" where
  "drop_underscores prev [] = (if prev = CHR ''_'' then None else Some [])"
| "drop_underscores prev (c # cs) =
     (if c = CHR ''_'' then
        (if is_digit prev then drop_underscores c cs else None)
      else if prev = CHR ''_'' \<and> \<not> is_digit c then None
      else map_option ((#) c) (drop_underscores c cs))"

definition digits_to_int :: "string \<Rightarrow> int" where
  "digits_to_int ds = foldl (\<lambda>n c. 10 * n + (of_char c - 48)) 0 ds"

text \<open>An optional sign: whether it is a minus, and the rest.\<close>

definition read_sign :: "string \<Rightarrow> bool \<times> string" where
  "read_sign s =
     (case s of
        c # cs \<Rightarrow> (if c = CHR ''-'' then (True, cs) else if c = CHR ''+'' then (False, cs) else (False, s))
      | [] \<Rightarrow> (False, s))"

text \<open>
  An exponent part \<open>e\<close> or \<open>E\<close>, an optional sign, at least one digit: its value and
  the rest. A malformed exponent is not read (the number ends before it).
\<close>

definition read_exponent :: "string \<Rightarrow> int \<times> string" where
  "read_exponent s =
     (case s of
        c # cs \<Rightarrow>
          (if c = CHR ''e'' \<or> c = CHR ''E'' then
             (let (neg, r) = read_sign cs; ds = takeWhile is_digit r
              in if ds = [] then (0, s)
                 else ((if neg then - digits_to_int ds else digits_to_int ds),
                       dropWhile is_digit r))
           else (0, s))
      | [] \<Rightarrow> (0, s))"

text \<open>
  A decimal number without its sign: digits, an optional point and digits, at least
  one digit in all, an optional exponent. The result is the exact value and the rest,
  or \<open>None\<close> when no number starts here.
\<close>

definition read_decimal :: "string \<Rightarrow> (rat \<times> string) option" where
  "read_decimal s =
     (let ip = takeWhile is_digit s; r1 = dropWhile is_digit s;
          (fp, r2) = (case r1 of
                        c # cs \<Rightarrow> (if c = CHR ''.'' then (takeWhile is_digit cs, dropWhile is_digit cs)
                                   else ([], r1))
                      | [] \<Rightarrow> ([], r1))
      in if ip = [] \<and> fp = [] then None
         else
           let (ex, r3) = read_exponent r2
           in Some (of_int (digits_to_int (ip @ fp)) * pow10 (ex - int (length fp)), r3))"

text \<open>\<open>inf\<close>, \<open>infinity\<close> and \<open>nan\<close> in any letter case, after the sign.\<close>

definition read_inf_or_nan :: "bool \<Rightarrow> string \<Rightarrow> pyfloat option" where
  "read_inf_or_nan neg s =
     (let l = map ascii_lower s
      in if l = ''inf'' \<or> l = ''infinity'' then Some (finf neg)
         else if l = ''nan'' then Some NaN
         else None)"

text \<open>
  The conversion proper: ASCII whitespace is stripped at both ends, then the whole of
  what is left must be one number. The value is rounded correctly to binary64; a
  value too large becomes an infinity. \<open>None\<close> is \<open>ValueError\<close>.
\<close>

definition float_from_string_inner :: "string \<Rightarrow> pyfloat option" where
  "float_from_string_inner s =
     (let t = rev (dropWhile ascii_isspace (rev (dropWhile ascii_isspace s)))
      in if t = [] then None
         else
           let (neg, r) = read_sign t
           in case read_decimal r of
                Some (q, rest) \<Rightarrow>
                  (if rest = [] then Some (to_binary64 neg (if neg then - q else q)) else None)
              | None \<Rightarrow> read_inf_or_nan neg r)"

definition py_float :: "string \<Rightarrow> pyfloat option" where
  "py_float s =
     (let a = to_ascii s
      in if CHR ''_'' \<in> set a then
           (case drop_underscores (CHR 0x00) a of
              None \<Rightarrow> None
            | Some t \<Rightarrow> float_from_string_inner t)
         else float_from_string_inner a)"

section \<open>Python values, errors and data frames\<close>

text \<open>
  The exceptions of the pipeline that are modelled; \<open>KeyError\<close> carries the missing
  key, \<open>OperationalError\<close> is the error of the database engine.
\<close>

datatype py_error =
  AttributeError | ValueError | IndexError | KeyError string | TypeError | FileNotFoundError
  | OperationalError

text \<open>Sequencing of steps that may raise: the first exception ends the run.\<close>

definition py_bind :: "py_error + 'a \<Rightarrow> ('a \<Rightarrow> py_error + 'b) \<Rightarrow> py_error + 'b" where
  "py_bind m f = (case m of Inl e \<Rightarrow> Inl e | Inr x \<Rightarrow> f x)"

text \<open>\<open>xs[i]\<close> for \<open>i \<ge> 0\<close>: \<open>IndexError\<close> out of range.\<close>

definition py_index :: "'a list \<Rightarrow> nat \<Rightarrow> py_error + 'a" where
  "py_index xs i = (if i < length xs then Inr (xs ! i) else Inl IndexError)"

text \<open>
  The value of one cell of a data frame: a string, a float or \<open>None\<close>. These are
  the cells of the table \<open>extract\<close> builds and of a rate file whose rates are decimal
  numbers; cells of an integer type are not modelled.
\<close>

datatype cell = Str string | Num pyfloat | PyNone

fun is_num :: "cell \<Rightarrow> bool" where
  "is_num (Num x) = True"
| "is_num c = False"

text \<open>\<open>pandas.isna\<close> on a cell: \<open>None\<close> and NaN are the null values.\<close>

definition is_null :: "cell \<Rightarrow> bool" where
  "is_null c = (c = PyNone \<or> c = Num NaN)"

text \<open>
  A \<open>DataFrame\<close>: its columns in order, each a label and the values of its rows.
  A frame of pandas has all columns of one length; the operations below are those of
  a frame whose labels are distinct.
\<close>

type_synonym frame = "(string \<times> cell list) list"

text \<open>\<open>df[label]\<close>: \<open>KeyError\<close> when no column has the label.\<close>

definition get_column :: "frame \<Rightarrow> string \<Rightarrow> py_error + cell list" where
  "get_column df label = (case map_of df label of None \<Rightarrow> Inl (KeyError label) | Some vs \<Rightarrow> Inr vs)"

text \<open>\<open>df[label] = vs\<close>: the column is replaced where it stands, or added as the last one.\<close>

fun set_column :: "frame \<Rightarrow> string \<Rightarrow> cell list \<Rightarrow> frame" where
  "set_column [] label vs = [(label, vs)]"
| "set_column ((l, c) # df) label vs =
     (if l = label then (label, vs) # df else (l, c) # set_column df label vs)"

text \<open>
  The column type pandas infers when a frame is built from Python objects: a column of
  floats and \<open>None\<close> with at least one float becomes a float column, its \<open>None\<close>
  turned into NaN; any other column stays a column of objects, \<open>None\<close> kept.
\<close>

definition infer_column :: "cell list \<Rightarrow> cell list" where
  "infer_column vs =
     (if list_ex is_num vs \<and> list_all (\<lambda>v. is_num v \<or> v = PyNone) vs
      then map (\<lambda>v. if v = PyNone then Num NaN else v) vs
      else vs)"

text \<open>\<open>pd.DataFrame(data, columns=table_attribs)\<close> for the list of two-key records of \<open>extract\<close>.\<close>

definition data_frame :: "(cell \<times> cell) list \<Rightarrow> string \<times> string \<Rightarrow> frame" where
  "data_frame data table_attribs =
     [(fst table_attribs, infer_column (map fst data)),
      (snd table_attribs, infer_column (map snd data))]"

section \<open>Extraction\<close>

text \<open>
  The parsed page, as far as \<open>extract\<close> looks at it: its \<open>h2\<close> and \<open>tbody\<close>
  elements in document order. \<open>H2 l\<close> carries the text of the heading's first
  \<open>span\<close> (\<open>None\<close> when it has none); \<open>TBody rs\<close> carries, for each \<open>tr\<close> of the
  table body, the texts of its \<open>td\<close> cells.
\<close>

datatype element = H2 "string option" | TBody "string list list" | Other

type_synonym soup = "element list"

text \<open>\<open>soup.find_all('tbody')\<close>: the table bodies with their positions, in document order.\<close>

definition find_all_tbody :: "soup \<Rightarrow> (nat \<times> string list list) list" where
  "find_all_tbody doc =
     concat (map (\<lambda>(i, e). case e of TBody rs \<Rightarrow> [(i, rs)] | _ \<Rightarrow> []) (enumerate 0 doc))"

text \<open>
  \<open>find_previous('h2')\<close> over the elements before a position, nearest first: the
  label of the nearest \<open>h2\<close>, \<open>None\<close> when there is no \<open>h2\<close>.
\<close>

fun find_previous_h2 :: "element list \<Rightarrow> string option option" where
  "find_previous_h2 [] = None"
| "find_previous_h2 (H2 l # es) = Some l"
| "find_previous_h2 (TBody rs # es) = find_previous_h2 es"
| "find_previous_h2 (Other # es) = find_previous_h2 es"

text \<open>
  \<open>table.find_previous('h2').span.text\<close> for the table at position \<open>i\<close>: an attribute
  of \<open>None\<close> is read when no \<open>h2\<close> precedes the table or the \<open>h2\<close> has no \<open>span\<close>.
\<close>

definition heading_text :: "soup \<Rightarrow> nat \<Rightarrow> py_error + string" where
  "heading_text doc i =
     (case find_previous_h2 (rev (take i doc)) of
        None \<Rightarrow> Inl AttributeError
      | Some None \<Rightarrow> Inl AttributeError
      | Some (Some t) \<Rightarrow> Inr t)"

definition target_heading :: string where
  "target_heading = ''By market capitalization''"

text \<open>The loop over \<open>tables\<close> with its \<open>break\<close>: the rows of the first table whose heading matches.\<close>

fun find_target :: "soup \<Rightarrow> (nat \<times> string list list) list \<Rightarrow> py_error + string list list option" where
  "find_target doc [] = Inr None"
| "find_target doc ((i, rs) # tables) =
     py_bind (heading_text doc i)
       (\<lambda>t. if t = target_heading then Inr (Some rs) else find_target doc tables)"

text \<open>\<open>float(mc_usd)\<close> in its \<open>try\<close>: \<open>None\<close> on \<open>ValueError\<close>.\<close>

definition parse_market_cap :: "string \<Rightarrow> cell" where
  "parse_market_cap s = (case py_float s of Some x \<Rightarrow> Num x | None \<Rightarrow> PyNone)"

text \<open>The loop over the rows: each row is the list of the texts of its \<open>td\<close> cells.\<close>

fun extract_rows :: "string list list \<Rightarrow> py_error + (cell \<times> cell) list" where
  "extract_rows [] = Inr []"
| "extract_rows (cols # rows) =
     (if 2 \<le> length cols then
        py_bind (py_index cols 1) (\<lambda>c1.
        py_bind (py_index cols 2) (\<lambda>c2.
        py_bind (extract_rows rows) (\<lambda>data.
          Inr ((Str (py_strip c1), parse_market_cap (remove_newlines (py_strip c2))) # data))))
      else extract_rows rows)"

text \<open>
  The function \<open>extract\<close> of the source, from the parsed page on (the name
  \<open>extract\<close> is a reserved word here): \<open>ValueError\<close> when no table was selected,
  the first row of the selected table skipped.
\<close>

definition extract_table :: "soup \<Rightarrow> string \<times> string \<Rightarrow> py_error + frame" where
  "extract_table doc table_attribs =
     py_bind (find_target doc (find_all_tbody doc)) (\<lambda>target_table.
       case target_table of
         None \<Rightarrow> Inl ValueError
       | Some trs \<Rightarrow>
           py_bind (extract_rows (drop 1 trs)) (\<lambda>data. Inr (data_frame data table_attribs)))"

section \<open>Transformation\<close>

text \<open>
  The exchange-rate file as \<open>pd.read_csv\<close> returns it: \<open>None\<close> when the file does
  not exist, else its frame. \<open>set_index('Currency').to_dict()['Rates']\<close> is the
  dictionary from the cells of column \<open>Currency\<close> to those of column \<open>Rates\<close>, given
  here as its items in row order.
\<close>

definition exchange_rate_dict :: "frame option \<Rightarrow> py_error + (cell \<times> cell) list" where
  "exchange_rate_dict src =
     (case src of
        None \<Rightarrow> Inl FileNotFoundError
      | Some exchange_rate \<Rightarrow>
          py_bind (get_column exchange_rate ''Currency'') (\<lambda>ks.
          py_bind (get_column exchange_rate ''Rates'') (\<lambda>vs. Inr (zip ks vs))))"

text \<open>\<open>d[key]\<close> on a dictionary given by its items: the last item of a key is its entry.\<close>

definition dict_get :: "(cell \<times> cell) list \<Rightarrow> string \<Rightarrow> py_error + cell" where
  "dict_get d k = (case map_of (rev d) (Str k) of None \<Rightarrow> Inl (KeyError k) | Some v \<Rightarrow> Inr v)"

text \<open>\<open>x * r\<close> on two cells: defined on two floats, \<open>TypeError\<close> otherwise.\<close>

fun py_mul :: "cell \<Rightarrow> cell \<Rightarrow> py_error + pyfloat" where
  "py_mul (Num a) (Num b) = Inr (fmul a b)"
| "py_mul x r = Inl TypeError"

text \<open>
  The list comprehension \<open>[np.round(x * exchange_rate_dict[cur], 2) for x in column]\<close>:
  the rate is looked up once per element, before the product.
\<close>

fun convert_column :: "(cell \<times> cell) list \<Rightarrow> string \<Rightarrow> cell list \<Rightarrow> py_error + cell list" where
  "convert_column d cur [] = Inr []"
| "convert_column d cur (x # xs) =
     py_bind (dict_get d cur) (\<lambda>r.
     py_bind (py_mul x r) (\<lambda>p.
     py_bind (convert_column d cur xs) (\<lambda>rest. Inr (Num (np_round2 p) # rest))))"

definition add_currency :: "(cell \<times> cell) list \<Rightarrow> string \<Rightarrow> string \<Rightarrow> frame \<Rightarrow> py_error + frame" where
  "add_currency d cur label df =
     py_bind (get_column df ''MC_USD_Billion'') (\<lambda>xs.
     py_bind (convert_column d cur xs) (\<lambda>vs. Inr (set_column df label vs)))"

definition transform :: "frame \<Rightarrow> frame option \<Rightarrow> py_error + frame" where
  "transform df csv =
     py_bind (exchange_rate_dict csv) (\<lambda>d.
     py_bind (add_currency d ''GBP'' ''MC_GBP_Billion'' df) (\<lambda>df1.
     py_bind (add_currency d ''EUR'' ''MC_EUR_Billion'' df1) (\<lambda>df2.
     add_currency d ''INR'' ''MC_INR_Billion'' df2)))"

section \<open>Loading into the database\<close>












section \<open>Auxiliary notions for the statements\<close>

text \<open>The labels of the three columns \<open>transform\<close> writes, in the order it writes them.\<close>

definition derived_labels :: "string list" where
  "derived_labels = [''MC_GBP_Billion'', ''MC_EUR_Billion'', ''MC_INR_Billion'']"

text \<open>Whether the rate dictionary has an entry for a currency code.\<close>

definition has_rate :: "(cell \<times> cell) list \<Rightarrow> string \<Rightarrow> bool" where
  "has_rate d k = (map_of (rev d) (Str k) \<noteq> None)"

text \<open>The first of GBP, EUR, INR (the order \<open>transform\<close> uses them in) without an entry.\<close>

definition missing_currency :: "(cell \<times> cell) list \<Rightarrow> string option" where
  "missing_currency d = find (\<lambda>k. \<not> has_rate d k) [''GBP'', ''EUR'', ''INR'']"

text \<open>
  The scenario of the specification: the rates 0.8, 0.93 and 82.95 as the floats
  Python reads from these literals, and a table of one record, Bank A, 100.0.
\<close>

definition gbp_rate :: pyfloat where
  "gbp_rate = to_binary64 False (8 / 10)"

definition eur_rate :: pyfloat where
  "eur_rate = to_binary64 False (93 / 100)"

definition inr_rate :: pyfloat where
  "inr_rate = to_binary64 False (8295 / 100)"

definition scenario_table :: frame where
  "scenario_table = [(''Name'', [Str ''Bank A'']), (''MC_USD_Billion'', [Num (Fin 100)])]"

definition scenario_rates :: "frame option" where
  "scenario_rates =
     Some [(''Currency'', [Str ''GBP'', Str ''EUR'', Str ''INR'']),
           (''Rates'', [Num gbp_rate, Num eur_rate, Num inr_rate])]"

definition scenario_result :: frame where
  "scenario_result =
     scenario_table @ [(''MC_GBP_Billion'', [Num (Fin 80)]), (''MC_EUR_Billion'', [Num (Fin 93)]),
                       (''MC_INR_Billion'', [Num (Fin 8295)])]"

text \<open>The same rate file without the row of EUR; a rate file and a table without rows.\<close>

definition rates_without_eur :: "frame option" where
  "rates_without_eur =
     Some [(''Currency'', [Str ''GBP'', Str ''INR'']), (''Rates'', [Num gbp_rate, Num inr_rate])]"

definition empty_rates :: "frame option" where
  "empty_rates = Some [(''Currency'', []), (''Rates'', [])]"

definition empty_table :: frame where
  "empty_table = [(''Name'', []), (''MC_USD_Billion'', [])]"

text \<open>The column names the script passes to \<open>extract\<close>.\<close>

definition table_attribs :: "string \<times> string" where
  "table_attribs = (''Name'', ''MC_USD_Billion'')"

text \<open>
  Three pages. In each the heading \<open>By market capitalization\<close> is followed by a table
  with a header row and one data row: the data row has two cells only; its market cap
  reads \<open>N/A\<close>; the page starts with a table that no heading precedes.
\<close>

definition page_two_cells :: soup where
  "page_two_cells = [H2 (Some ''By market capitalization''), TBody [[], [''1'', ''Bank A'']]]"

definition page_na :: soup where
  "page_na = [H2 (Some ''By market capitalization''), TBody [[], [''1'', ''Bank A'', ''N/A'']]]"

definition page_leading_table :: soup where
  "page_leading_table =
     [TBody [[], [''x'']], H2 (Some ''By market capitalization''),
      TBody [[], [''1'', ''Bank A'', ''100.0'']]]"

text \<open>The table \<open>extract\<close> builds from \<open>page_na\<close>: its only market cap is \<open>None\<close>.\<close>

definition null_table :: frame where
  "null_table = [(''Name'', [Str ''Bank A'']), (''MC_USD_Billion'', [PyNone])]"

text \<open>
  The characters that occur in the texts \<open>float\<close> accepts: digits, signs, the point,
  the underscore, the exponent letter, the letters of \<open>inf\<close>, \<open>infinity\<close> and \<open>nan\<close>
  in either case, and whitespace. Every other character is foreign to a number.
\<close>

definition float_char :: "char \<Rightarrow> bool" where
  "float_char c = (is_digit c \<or> c \<in> set ''+-._eEinftyaINFTYA'' \<or> py_isspace c)"

text \<open>
  The float literals of Python, as the language reference gives them (\<open>floatvalue\<close>),
  for a text without surrounding whitespace: this is what the specification means by a
  text that is a number.
\<close>

text \<open>An optional sign.\<close>

definition sign_text :: "string \<Rightarrow> bool" where
  "sign_text s = (s = [] \<or> s = ''+'' \<or> s = ''-'')"

text \<open>Digits, or digits with a point among or beside them; at least one digit.\<close>

definition mantissa_text :: "string \<Rightarrow> bool" where
  "mantissa_text m =
     (\<exists>ip fp. list_all is_digit ip \<and> list_all is_digit fp \<and>
        ((m = ip \<and> ip \<noteq> []) \<or> (m = ip @ ''.'' @ fp \<and> (ip \<noteq> [] \<or> fp \<noteq> []))))"

text \<open>An exponent: \<open>e\<close> or \<open>E\<close>, an optional sign, at least one digit.\<close>

definition exponent_text :: "string \<Rightarrow> bool" where
  "exponent_text x =
     (\<exists>e sg ds. (e = CHR ''e'' \<or> e = CHR ''E'') \<and> sign_text sg \<and> list_all is_digit ds \<and> ds \<noteq> [] \<and>
        x = e # sg @ ds)"

text \<open>A decimal number without its sign: a mantissa and an optional exponent.\<close>

definition number_text :: "string \<Rightarrow> bool" where
  "number_text s = (\<exists>m x. mantissa_text m \<and> (x = [] \<or> exponent_text x) \<and> s = m @ x)"

text \<open>The words \<open>inf\<close>, \<open>infinity\<close> and \<open>nan\<close>, in any letter case.\<close>

definition special_text :: "string \<Rightarrow> bool" where
  "special_text s = (map ascii_lower s \<in> {''inf'', ''infinity'', ''nan''})"

text \<open>A literal without underscores: an optional sign, then a number or one of the words.\<close>

definition plain_text :: "string \<Rightarrow> bool" where
  "plain_text w = (\<exists>sg b. sign_text sg \<and> (number_text b \<or> special_text b) \<and> w = sg @ b)"

text \<open>Every underscore of the text stands between two digits.\<close>

definition underscores_between_digits :: "string \<Rightarrow> bool" where
  "underscores_between_digits t =
     (\<forall>x y. t = x @ CHR ''_'' # y \<longrightarrow> x \<noteq> [] \<and> y \<noteq> [] \<and> is_digit (last x) \<and> is_digit (hd y))"

text \<open>A float literal: its underscores stand between digits, and without them it is a plain literal.\<close>

definition float_text :: "string \<Rightarrow> bool" where
  "float_text t =
     (underscores_between_digits t \<and> plain_text (filter (\<lambda>c. c \<noteq> CHR ''_'') t))"

text \<open>The record \<open>extract\<close> makes of a row that has a third cell.\<close>

definition row_record :: "string list \<Rightarrow> cell \<times> cell" where
  "row_record cols =
     (Str (py_strip (cols ! 1)), parse_market_cap (remove_newlines (py_strip (cols ! 2))))"

text \<open>A page whose only data row has a market cap written with a thousands separator.\<close>

definition page_comma :: soup where
  "page_comma = [H2 (Some ''By market capitalization''), TBody [[], [''1'', ''Bank A'', ''1,234.56'']]]"




text \<open>
  What it means for a float \<open>y\<close> to be the real number \<open>q\<close> rounded to two decimals:
  \<open>y\<close> is finite and is, up to the relative error \<open>2^-53\<close> of one binary64 rounding, a
  multiple \<open>k / 100\<close> of a hundredth, where the integer \<open>k\<close> is a nearest integer of
  \<open>100 * q\<close> (up to three such rounding errors of \<open>100 * q\<close>). Amounts are in the range
  where neither overflow nor underflow occurs.
\<close>

definition is_finite :: "pyfloat \<Rightarrow> bool" where
  "is_finite x = (case x of Fin q \<Rightarrow> True | NegZero \<Rightarrow> True | _ \<Rightarrow> False)"

definition money_range :: "rat \<Rightarrow> bool" where
  "money_range q = (q = 0 \<or> (pow2 (- 1000) \<le> \<bar>q\<bar> \<and> \<bar>q\<bar> \<le> pow2 1000))"

definition round2_of :: "rat \<Rightarrow> pyfloat \<Rightarrow> bool" where
  "round2_of q y =
     (is_finite y \<and>
      (\<exists>k :: int. \<bar>of_int k - 100 * q\<bar> \<le> 1 / 2 + 3 * \<bar>100 * q\<bar> / 2 ^ 53 \<and>
         \<bar>fval y - of_int k / 100\<bar> \<le> \<bar>of_int k / 100\<bar> / 2 ^ 53))"

text \<open>A table of two records; the products of the second with the rates are not exact.\<close>

definition rounding_table :: frame where
  "rounding_table =
     [(''Name'', [Str ''Bank A'', Str ''Bank B'']),
      (''MC_USD_Billion'', [Num (Fin 100), Num (Fin (7 / 2))])]"

text \<open>The values of the three rates as floats, and the floats nearest to 2.8, 3.26 and 290.32.\<close>

definition gbp_value :: rat where
  "gbp_value = 3602879701896397 / 4503599627370496"

definition eur_value :: rat where
  "eur_value = 8376695306909123 / 9007199254740992"

definition inr_value :: rat where
  "inr_value = 5837087329537229 / 70368744177664"

definition float_2_8 :: pyfloat where
  "float_2_8 = Fin (3152519739159347 / 1125899906842624)"

definition float_3_26 :: pyfloat where
  "float_3_26 = Fin (1835216848153477 / 562949953421312)"

definition float_290_32 :: pyfloat where
  "float_290_32 = Fin (5107363452414853 / 17592186044416)"

section \<open>Floating-point arithmetic\<close>


subsection \<open>The binary exponent\<close>

text \<open>
  \<open>ilog2\<close> is the exponent binary64 rounding needs: a positive value lies between
  the power of two it names and the next one.
\<close>

lemma pow2_powi: "pow2 e = 2 powi e"
  by (simp add: pow2_def power_int_def power_one_over)

lemma bit_length_bounds:
  "0 < n \<Longrightarrow> \<exists>m. bit_length n = int (Suc m) \<and> 2 ^ m \<le> n \<and> n < 2 ^ Suc m"
proof (induction n rule: bit_length.induct)
  case (1 n)
  have bl: "bit_length n = 1 + bit_length (n div 2)"
    using "1.prems" by (subst bit_length.simps) simp
  show ?case
  proof (cases "n = 1")
    case True
    from True have "n div 2 = 0" by simp
    then have "bit_length (n div 2) = 0" by (simp add: bit_length.simps [of 0])
    with bl True have "bit_length n = int (Suc 0) \<and> 2 ^ 0 \<le> n \<and> n < 2 ^ Suc 0"
      by simp
    then show ?thesis by blast
  next
    case False
    with "1.prems" have h: "0 < n div 2" by simp
    with "1.IH" "1.prems" obtain m where m: "bit_length (n div 2) = int (Suc m)"
      "2 ^ m \<le> n div 2" "n div 2 < 2 ^ Suc m" by auto
    have "bit_length n = int (Suc (Suc m))" using bl m(1) by simp
    moreover have "2 ^ Suc m \<le> n" using m(2) by simp
    moreover have "n < 2 ^ Suc (Suc m)" using m(3) by simp
    ultimately show ?thesis by blast
  qed
qed

lemma ilog2_bounds:
  assumes "0 < q"
  shows "pow2 (ilog2 q) \<le> q \<and> q < pow2 (ilog2 q + 1)"
proof -
  obtain a b where ab: "quotient_of q = (a, b)" by (cases "quotient_of q")
  then have b: "0 < b" by (rule quotient_of_denom_pos)
  have q: "q = of_int a / of_int b" using ab by (rule quotient_of_div)
  with assms b have a: "0 < a" by (simp add: zero_less_divide_iff)
  from bit_length_bounds [OF a] obtain m where m: "bit_length a = int (Suc m)"
    "2 ^ m \<le> a" "a < 2 ^ Suc m" by blast
  from bit_length_bounds [OF b] obtain k where k: "bit_length b = int (Suc k)"
    "2 ^ k \<le> b" "b < 2 ^ Suc k" by blast
  let ?d = "int m - int k"
  have d: "bit_length a - bit_length b = ?d" using m(1) k(1) by simp
  have ra: "(2::rat) ^ m \<le> of_int a" "(of_int a :: rat) < 2 ^ Suc m"
    using m(2,3) by (metis of_int_le_iff of_int_numeral of_int_power,
        metis of_int_less_iff of_int_numeral of_int_power)
  have rb: "(2::rat) ^ k \<le> of_int b" "(of_int b :: rat) < 2 ^ Suc k"
    using k(2,3) by (metis of_int_le_iff of_int_numeral of_int_power,
        metis of_int_less_iff of_int_numeral of_int_power)
  have bpos: "(0::rat) < of_int b" using b by simp
  have p: "(2::rat) powi (int m - int k) = 2 ^ m / 2 ^ k"
    by (simp add: power_int_diff)
  have up: "q < 2 powi (?d + 1)"
  proof -
    have "q * of_int b = of_int a" using q bpos by simp
    also have "\<dots> < 2 ^ Suc m" by (rule ra(2))
    also have "\<dots> = (2::rat) powi (?d + 1) * 2 ^ k"
      by (simp add: power_int_add p)
    also have "\<dots> \<le> 2 powi (?d + 1) * of_int b"
      using rb(1) by (simp add: mult_left_mono)
    finally show ?thesis using bpos by simp
  qed
  have lo: "2 powi (?d - 1) \<le> q"
  proof -
    have "(2::rat) powi (?d - 1) * of_int b \<le> 2 powi (?d - 1) * 2 ^ Suc k"
      using rb(2) by (simp add: mult_left_mono)
    also have "\<dots> = 2 ^ m"
      by (simp add: power_int_diff p)
    also have "\<dots> \<le> of_int a" by (rule ra(1))
    also have "\<dots> = q * of_int b" using q bpos by simp
    finally show ?thesis using bpos by simp
  qed
  show ?thesis
  proof (cases "pow2 ?d \<le> q")
    case True
    then have "ilog2 q = ?d" by (simp add: ilog2_def ab d)
    with True up show ?thesis by (simp add: pow2_powi)
  next
    case False
    then have "ilog2 q = ?d - 1" by (simp add: ilog2_def ab d)
    with False lo show ?thesis by (simp add: pow2_powi)
  qed
qed

subsection \<open>Rounding errors\<close>

lemma pow2_pos: "0 < pow2 e"
  by (simp add: pow2_powi)

lemma pow2_add: "pow2 (a + b) = pow2 a * pow2 b"
  by (simp add: pow2_powi power_int_add)

lemma pow2_less: "a < b \<Longrightarrow> pow2 a < pow2 b"
  by (simp add: pow2_powi power_int_strict_increasing)

lemma pow2_le: "a \<le> b \<Longrightarrow> pow2 a \<le> pow2 b"
  by (simp add: pow2_powi power_int_increasing)

lemma pow2_less_D: "pow2 a < pow2 b \<Longrightarrow> a < b"
  using pow2_le [of b a] by (cases "a < b") auto

lemma pow2_53: "pow2 (e - 53) = pow2 e / 2 ^ 53"
proof -
  have "pow2 e = pow2 (e - 53) * pow2 53" using pow2_add [of "e - 53" 53] by simp
  moreover have "pow2 53 = 2 ^ 53" by (simp add: pow2_def)
  ultimately show ?thesis by simp
qed

lemma pow2_half: "pow2 (e - 52) / 2 = pow2 (e - 53)"
proof -
  have "pow2 (e - 52) = pow2 (e - 53) * pow2 1" using pow2_add [of "e - 53" 1] by simp
  moreover have "pow2 1 = 2" by (simp add: pow2_def)
  ultimately show ?thesis by simp
qed

lemma round_half_even_error: "\<bar>of_int (round_half_even q) - q\<bar> \<le> 1 / 2"
proof -
  have "of_int \<lfloor>q\<rfloor> \<le> q" "q < of_int \<lfloor>q\<rfloor> + 1" by linarith+
  then show ?thesis
    by (auto simp: round_half_even_def Let_def)
qed

text \<open>
  In the normal range, rounding to binary64 gives a finite value within the relative
  error \<open>2^-53\<close>.
\<close>

lemma to_binary64_normal:
  assumes lo: "pow2 (- 1022) \<le> \<bar>q\<bar>" and hi: "\<bar>q\<bar> < pow2 1023"
  shows "\<exists>v. to_binary64 neg q = Fin v \<and> \<bar>v - q\<bar> \<le> \<bar>q\<bar> / 2 ^ 53 \<and> v \<noteq> 0"
proof -
  from lo pow2_pos [of "- 1022"] have q0: "0 < \<bar>q\<bar>" by linarith
  then have qn: "q \<noteq> 0" by simp
  let ?e = "ilog2 \<bar>q\<bar>"
  from ilog2_bounds [OF q0] have b: "pow2 ?e \<le> \<bar>q\<bar>" "\<bar>q\<bar> < pow2 (?e + 1)" by simp_all
  from lo b(2) have "pow2 (- 1022) < pow2 (?e + 1)" by linarith
  then have e_lo: "- 1022 \<le> ?e" using pow2_less_D by fastforce
  then have m: "max ?e (- 1022) = ?e" by simp
  let ?u = "pow2 (?e - 52)"
  let ?m = "round_half_even (q / ?u)"
  let ?v = "of_int ?m * ?u"
  have u: "0 < ?u" by (rule pow2_pos)
  have "\<bar>?v - q\<bar> = ?u * \<bar>of_int ?m - q / ?u\<bar>"
  proof -
    have "?v - q = ?u * (of_int ?m - q / ?u)" using u by (simp add: field_simps)
    then show ?thesis using u by (simp add: abs_mult)
  qed
  also have "\<dots> \<le> ?u * (1 / 2)"
    using round_half_even_error [of "q / ?u"] u by (intro mult_left_mono) auto
  also have "\<dots> = pow2 ?e / 2 ^ 53"
    using pow2_half [of ?e] pow2_53 [of ?e] by simp
  also have "\<dots> \<le> \<bar>q\<bar> / 2 ^ 53"
    using b(1) by (simp add: divide_right_mono)
  finally have err: "\<bar>?v - q\<bar> \<le> \<bar>q\<bar> / 2 ^ 53" .
  have small: "\<bar>q\<bar> / 2 ^ 53 \<le> \<bar>q\<bar> / 2"
    using q0 by (intro divide_left_mono) auto
  have v_hi: "\<bar>?v\<bar> < pow2 1024"
  proof -
    have "\<bar>?v\<bar> \<le> \<bar>q\<bar> + \<bar>?v - q\<bar>" by linarith
    also have "\<dots> \<le> \<bar>q\<bar> + \<bar>q\<bar> / 2" using err small by linarith
    also have "\<dots> < 2 * pow2 1023" using hi q0 by linarith
    also have "\<dots> = pow2 1024" using pow2_add [of 1 1023] by (simp add: pow2_def [of 1])
    finally show ?thesis .
  qed
  have v_lo: "0 < \<bar>?v\<bar>"
  proof -
    have "\<bar>q\<bar> - \<bar>?v - q\<bar> \<le> \<bar>?v\<bar>" by linarith
    with err small q0 show ?thesis by linarith
  qed
  then have vn: "?v \<noteq> 0" by simp
  from ilog2_bounds [OF v_lo] v_hi have "pow2 (ilog2 \<bar>?v\<bar>) < pow2 1024" by linarith
  then have "ilog2 \<bar>?v\<bar> < 1024" by (rule pow2_less_D)
  then have "to_binary64 neg q = Fin ?v"
    using qn vn by (simp add: to_binary64_def Let_def m)
  with err vn show ?thesis by blast
qed

lemma pow2_7: "pow2 7 = 128" "pow2 (- 7) = 1 / 128" "pow2 1 = 2" "pow2 (- 1) = 1 / 2"
  by (simp_all add: pow2_def)

lemma fmul_Fin:
  assumes "pow2 (- 1022) \<le> \<bar>a * b\<bar>" and "\<bar>a * b\<bar> < pow2 1023"
  shows "\<exists>v. fmul (Fin a) (Fin b) = Fin v \<and> \<bar>v - a * b\<bar> \<le> \<bar>a * b\<bar> / 2 ^ 53 \<and> v \<noteq> 0"
  using to_binary64_normal [OF assms]
  by (simp add: fmul_def is_inf_def fval_def)

lemma fmul_zero:
  "a * b = 0 \<Longrightarrow> fmul (Fin a) (Fin b) = Fin 0 \<or> fmul (Fin a) (Fin b) = NegZero"
  by (auto simp: fmul_def is_inf_def fval_def to_binary64_def fzero_def)

lemma np_round2_zero: "np_round2 (Fin 0) = Fin 0" "np_round2 NegZero = NegZero"
  by (simp_all add: np_round2_def fmul_def fdiv_def frint_def is_inf_def is_fzero_def fval_def
      to_binary64_def fzero_def is_neg_def round_half_even_def)

lemma close_bounds:
  fixes v q :: rat
  assumes "\<bar>v - q\<bar> \<le> \<bar>q\<bar> / 2 ^ 53"
  shows "\<bar>q\<bar> / 2 \<le> \<bar>v\<bar>" and "\<bar>v\<bar> \<le> 2 * \<bar>q\<bar>"
proof -
  have "\<bar>q\<bar> / 2 ^ 53 \<le> \<bar>q\<bar> / 2"
    by (intro divide_left_mono) auto
  with assms show "\<bar>q\<bar> / 2 \<le> \<bar>v\<bar>" "\<bar>v\<bar> \<le> 2 * \<bar>q\<bar>" by linarith+
qed

lemma np_round2_Fin:
  assumes lo: "pow2 (- 1010) \<le> \<bar>p\<bar>" and hi: "\<bar>p\<bar> \<le> pow2 1010"
  shows "is_finite (np_round2 (Fin p)) \<and>
         (\<exists>k :: int. \<bar>of_int k - 100 * p\<bar> \<le> 1 / 2 + \<bar>100 * p\<bar> / 2 ^ 53 \<and>
            \<bar>fval (np_round2 (Fin p)) - of_int k / 100\<bar> \<le> \<bar>of_int k / 100\<bar> / 2 ^ 53)"
proof -
  have p0: "0 < \<bar>p\<bar>" using lo pow2_pos [of "- 1010"] by linarith
  have r1: "pow2 (- 1022) \<le> \<bar>p * 100\<bar>"
  proof -
    have "pow2 (- 1022) \<le> pow2 (- 1010)" by (rule pow2_le) simp
    also have "\<dots> \<le> \<bar>p\<bar>" by (rule lo)
    also have "\<dots> \<le> \<bar>p * 100\<bar>" by (simp add: abs_mult)
    finally show ?thesis .
  qed
  have c100: "\<bar>p * 100\<bar> \<le> pow2 1017"
  proof -
    have "\<bar>p * 100\<bar> \<le> pow2 1010 * 128" using hi by (simp add: abs_mult)
    also have "\<dots> = pow2 1017" using pow2_add [of 1010 7] by (simp add: pow2_7)
    finally show ?thesis .
  qed
  have r2: "\<bar>p * 100\<bar> < pow2 1023"
    using c100 pow2_less [of 1017 1023] by simp
  from fmul_Fin [OF r1 r2] obtain y where
    y: "fmul (Fin p) (Fin 100) = Fin y" "\<bar>y - p * 100\<bar> \<le> \<bar>p * 100\<bar> / 2 ^ 53" by blast
  let ?k = "round_half_even y"
  have ky: "\<bar>of_int ?k - y\<bar> \<le> 1 / 2" by (rule round_half_even_error)
  have kp: "\<bar>of_int ?k - 100 * p\<bar> \<le> 1 / 2 + \<bar>100 * p\<bar> / 2 ^ 53"
  proof -
    from y(2) have "\<bar>y - 100 * p\<bar> \<le> \<bar>100 * p\<bar> / 2 ^ 53"
      by (metis mult.commute)
    with ky show ?thesis by linarith
  qed
  show ?thesis
  proof (cases "?k = 0")
    case True
    then have "frint (Fin y) = Fin 0 \<or> frint (Fin y) = NegZero"
      by (simp add: frint_def fzero_def)
    then have "np_round2 (Fin p) = Fin 0 \<or> np_round2 (Fin p) = NegZero"
      by (auto simp: np_round2_def y(1) fdiv_def is_inf_def is_fzero_def fval_def
          to_binary64_def fzero_def is_neg_def)
    then have "is_finite (np_round2 (Fin p))" "fval (np_round2 (Fin p)) = 0"
      by (auto simp: is_finite_def fval_def)
    with kp True show ?thesis by (intro conjI exI [of _ 0]) simp_all
  next
    case False
    then have fr: "frint (Fin y) = Fin (of_int ?k)" by (simp add: frint_def)
    have k1: "1 \<le> \<bar>of_int ?k :: rat\<bar>"
    proof -
      have "(1::int) \<le> \<bar>?k\<bar>" using False by simp
      then have "(of_int 1 :: rat) \<le> of_int \<bar>?k\<bar>" by (simp only: of_int_le_iff)
      then show ?thesis by simp
    qed
    have s1: "pow2 (- 1022) \<le> \<bar>of_int ?k / 100 :: rat\<bar>"
    proof -
      have "pow2 (- 1022) \<le> pow2 (- 7)" by (rule pow2_le) simp
      also have "\<dots> \<le> 1 / 100" by (simp add: pow2_7)
      also have "\<dots> \<le> \<bar>of_int ?k :: rat\<bar> / 100" using k1 by simp
      finally show ?thesis by simp
    qed
    have s2: "\<bar>of_int ?k / 100 :: rat\<bar> < pow2 1023"
    proof -
      have "\<bar>y\<bar> \<le> 2 * \<bar>p * 100\<bar>" using close_bounds(2) [OF y(2)] .
      then have "\<bar>y\<bar> \<le> 2 * pow2 1017" using c100 by linarith
      then have "\<bar>of_int ?k :: rat\<bar> \<le> 2 * pow2 1017 + 1 / 2" using ky by linarith
      also have "\<dots> \<le> 2 * pow2 1017 + 2 * pow2 1017"
        using pow2_le [of 0 1017] by (simp add: pow2_def [of 0])
      also have "\<dots> = pow2 1019" using pow2_add [of 1017 1] pow2_add [of 1018 1]
        by (simp add: pow2_7)
      finally have "\<bar>of_int ?k :: rat\<bar> \<le> pow2 1019" .
      moreover have "\<bar>of_int ?k / 100 :: rat\<bar> \<le> \<bar>of_int ?k :: rat\<bar>" by simp
      ultimately show ?thesis using pow2_less [of 1019 1023] by linarith
    qed
    from to_binary64_normal [OF s1 s2] obtain v where
      v: "to_binary64 (is_neg (Fin (of_int ?k)) \<noteq> is_neg (Fin 100)) (of_int ?k / 100) = Fin v"
      "\<bar>v - of_int ?k / 100\<bar> \<le> \<bar>of_int ?k / 100\<bar> / 2 ^ 53" by blast
    have "np_round2 (Fin p) = Fin v"
      using False v(1) by (simp add: np_round2_def y(1) fr fdiv_def is_inf_def is_fzero_def fval_def)
    with v(2) kp show ?thesis
      by (intro conjI exI [of _ ?k]) (simp_all add: is_finite_def fval_def)
  qed
qed

lemma rounded_product:
  assumes "money_range (a * b)"
  shows "round2_of (a * b) (np_round2 (fmul (Fin a) (Fin b)))"
proof (cases "a * b = 0")
  case True
  from fmul_zero [OF True] have "np_round2 (fmul (Fin a) (Fin b)) = Fin 0 \<or>
      np_round2 (fmul (Fin a) (Fin b)) = NegZero"
    by (auto simp: np_round2_zero)
  then show ?thesis using True
    by (auto simp: round2_of_def is_finite_def fval_def intro!: exI [of _ 0])
next
  case False
  with assms have r: "pow2 (- 1000) \<le> \<bar>a * b\<bar>" "\<bar>a * b\<bar> \<le> pow2 1000"
    by (simp_all add: money_range_def)
  have q0: "0 < \<bar>a * b\<bar>" using False by simp
  have r1: "pow2 (- 1022) \<le> \<bar>a * b\<bar>" using r(1) pow2_le [of "- 1022" "- 1000"] by simp
  have r2: "\<bar>a * b\<bar> < pow2 1023" using r(2) pow2_less [of 1000 1023] by simp
  from fmul_Fin [OF r1 r2] obtain p where
    p: "fmul (Fin a) (Fin b) = Fin p" "\<bar>p - a * b\<bar> \<le> \<bar>a * b\<bar> / 2 ^ 53" by blast
  note cb = close_bounds [OF p(2)]
  have lo: "pow2 (- 1010) \<le> \<bar>p\<bar>"
  proof -
    have "pow2 (- 1010) \<le> pow2 (- 1001)" by (rule pow2_le) simp
    also have "\<dots> = pow2 (- 1000) / 2" using pow2_add [of "- 1000" "- 1"] by (simp add: pow2_7)
    also have "\<dots> \<le> \<bar>a * b\<bar> / 2" using r(1) by simp
    also have "\<dots> \<le> \<bar>p\<bar>" by (rule cb(1))
    finally show ?thesis .
  qed
  have hi: "\<bar>p\<bar> \<le> pow2 1010"
  proof -
    have "\<bar>p\<bar> \<le> 2 * pow2 1000" using cb(2) r(2) by linarith
    also have "\<dots> = pow2 1001" using pow2_add [of 1000 1] by (simp add: pow2_7)
    also have "\<dots> \<le> pow2 1010" by (rule pow2_le) simp
    finally show ?thesis .
  qed
  from np_round2_Fin [OF lo hi] obtain k :: int where
    f: "is_finite (np_round2 (Fin p))" and
    k: "\<bar>of_int k - 100 * p\<bar> \<le> 1 / 2 + \<bar>100 * p\<bar> / 2 ^ 53"
      "\<bar>fval (np_round2 (Fin p)) - of_int k / 100\<bar> \<le> \<bar>of_int k / 100\<bar> / 2 ^ 53"
    by blast
  have "\<bar>of_int k - 100 * (a * b)\<bar> \<le> 1 / 2 + 3 * \<bar>100 * (a * b)\<bar> / 2 ^ 53"
  proof -
    have "100 * p - 100 * (a * b) = 100 * (p - a * b)"
      by (simp only: right_diff_distrib)
    then have "\<bar>100 * p - 100 * (a * b)\<bar> = \<bar>100\<bar> * \<bar>p - a * b\<bar>"
      by (simp only: abs_mult)
    then have "100 * \<bar>p - a * b\<bar> = \<bar>100 * p - 100 * (a * b)\<bar>"
      by simp
    then have "\<bar>of_int k - 100 * (a * b)\<bar> \<le> \<bar>of_int k - 100 * p\<bar> + 100 * \<bar>p - a * b\<bar>"
      by linarith
    also have "\<dots> \<le> 1 / 2 + \<bar>100 * p\<bar> / 2 ^ 53 + 100 * (\<bar>a * b\<bar> / 2 ^ 53)"
    proof -
      from p(2) have "100 * \<bar>p - a * b\<bar> \<le> 100 * (\<bar>a * b\<bar> / 2 ^ 53)"
        by (intro mult_left_mono) simp_all
      with k(1) show ?thesis by (intro add_mono)
    qed
    also have "\<dots> \<le> 1 / 2 + (100 * (2 * \<bar>a * b\<bar>)) / 2 ^ 53 + 100 * (\<bar>a * b\<bar> / 2 ^ 53)"
    proof -
      have "\<bar>100 * p\<bar> \<le> 100 * (2 * \<bar>a * b\<bar>)" using cb(2) by (simp add: abs_mult)
      then have "\<bar>100 * p\<bar> / 2 ^ 53 \<le> (100 * (2 * \<bar>a * b\<bar>)) / 2 ^ 53"
        by (rule divide_right_mono) simp
      then show ?thesis by (intro add_mono order_refl)
    qed
    also have "\<dots> = 1 / 2 + 3 * \<bar>100 * (a * b)\<bar> / 2 ^ 53"
      by (simp add: abs_mult)
    finally show ?thesis .
  qed
  with f k(2) show ?thesis
    unfolding round2_of_def p(1) by blast
qed

section \<open>Properties\<close>

subsection \<open>Sequencing and frames\<close>

lemma py_bind_Inr [simp]: "py_bind (Inr x) f = f x"
  by (simp add: py_bind_def)

lemma py_bind_Inl [simp]: "py_bind (Inl e) f = Inl e"
  by (simp add: py_bind_def)

lemma py_bind_eq_Inr: "py_bind m f = Inr y \<longleftrightarrow> (\<exists>x. m = Inr x \<and> f x = Inr y)"
  by (cases m) auto

lemma map_of_set_column:
  "map_of (set_column df l vs) k = (if k = l then Some vs else map_of df k)"
  by (induction df l vs rule: set_column.induct) auto

lemma set_column_same: "map_of df l = Some vs \<Longrightarrow> set_column df l vs = df"
  by (induction df l vs rule: set_column.induct) (auto split: if_splits)

lemma set_column_new: "l \<notin> set (map fst df) \<Longrightarrow> set_column df l vs = df @ [(l, vs)]"
  by (induction df l vs rule: set_column.induct) auto

lemma labels_set_column:
  "map fst (set_column df l vs) = (if l \<in> set (map fst df) then map fst df else map fst df @ [l])"
  by (induction df l vs rule: set_column.induct) auto

lemma filter_set_column:
  "\<not> P l \<Longrightarrow> filter (\<lambda>c. P (fst c)) (set_column df l vs) = filter (\<lambda>c. P (fst c)) df"
  by (induction df l vs rule: set_column.induct) auto

lemma get_column_set_column:
  "get_column (set_column df l vs) k = (if k = l then Inr vs else get_column df k)"
  by (simp add: get_column_def map_of_set_column)

lemma get_column_Inr: "get_column df l = Inr vs \<longleftrightarrow> map_of df l = Some vs"
  by (simp add: get_column_def split: option.splits)

subsection \<open>The steps of the transformation\<close>

lemma add_currency_Inr:
  "add_currency d cur label df = Inr df1 \<longleftrightarrow>
     (\<exists>xs vs. map_of df ''MC_USD_Billion'' = Some xs \<and> convert_column d cur xs = Inr vs \<and>
        df1 = set_column df label vs)"
  by (auto simp: add_currency_def py_bind_eq_Inr get_column_Inr)

lemma length_convert_column:
  "convert_column d cur xs = Inr vs \<Longrightarrow> length vs = length xs"
  by (induction xs arbitrary: vs) (auto simp: py_bind_eq_Inr)

text \<open>A successful run of \<open>transform\<close> is three comprehensions over the same column.\<close>

lemma transform_Inr:
  "transform df csv = Inr df' \<longleftrightarrow>
     (\<exists>d xs g e i. exchange_rate_dict csv = Inr d \<and> map_of df ''MC_USD_Billion'' = Some xs \<and>
        convert_column d ''GBP'' xs = Inr g \<and> convert_column d ''EUR'' xs = Inr e \<and>
        convert_column d ''INR'' xs = Inr i \<and>
        df' = set_column (set_column (set_column df ''MC_GBP_Billion'' g) ''MC_EUR_Billion'' e)
                ''MC_INR_Billion'' i)"
  by (auto simp: transform_def py_bind_eq_Inr add_currency_Inr map_of_set_column)

lemma convert_column_floats:
  "dict_get d cur = Inr (Num r) \<Longrightarrow>
   convert_column d cur (map Num xs) = Inr (map (\<lambda>x. Num (np_round2 (fmul x r))) xs)"
  by (induction xs) auto

subsection \<open>The scenario\<close>

lemma scenario_rates_read:
  "py_float ''0.8'' = Some gbp_rate \<and> py_float ''0.93'' = Some eur_rate \<and>
   py_float ''82.95'' = Some inr_rate \<and> py_float ''100.0'' = Some (Fin 100)"
  by code_simp

lemma scenario_products:
  "np_round2 (fmul (Fin 100) gbp_rate) = Fin 80"
  "np_round2 (fmul (Fin 100) eur_rate) = Fin 93"
  "np_round2 (fmul (Fin 100) inr_rate) = Fin 8295"
  by code_simp+

lemma scenario_dict:
  "exchange_rate_dict scenario_rates =
     Inr [(Str ''GBP'', Num gbp_rate), (Str ''EUR'', Num eur_rate), (Str ''INR'', Num inr_rate)]"
  by (simp add: scenario_rates_def exchange_rate_dict_def get_column_def)

lemma scenario_transform: "transform scenario_table scenario_rates = Inr scenario_result"
  unfolding transform_Inr
  by (simp add: scenario_dict scenario_table_def dict_get_def scenario_products scenario_result_def)

lemma rate_values:
  "gbp_rate = Fin gbp_value" "eur_rate = Fin eur_value" "inr_rate = Fin inr_value"
  by code_simp+

lemma rounding_products:
  "np_round2 (fmul (Fin (7 / 2)) gbp_rate) = float_2_8"
  "np_round2 (fmul (Fin (7 / 2)) eur_rate) = float_3_26"
  "np_round2 (fmul (Fin (7 / 2)) inr_rate) = float_290_32"
  by code_simp+

text \<open>The float products of 3.5 are not the rounded values: the rounding does something.\<close>

lemma rounding_products_inexact:
  "fmul (Fin (7 / 2)) gbp_rate = Fin (6305039478318695 / 2251799813685248)"
  "fmul (Fin (7 / 2)) eur_rate = Fin (7329608393545483 / 2251799813685248)"
  "fmul (Fin (7 / 2)) inr_rate = Fin (5107451413345075 / 17592186044416)"
  by code_simp+

lemma money_range_moderate: "1 / 128 \<le> \<bar>q\<bar> \<Longrightarrow> \<bar>q\<bar> \<le> 16384 \<Longrightarrow> money_range q"
proof -
  assume a: "1 / 128 \<le> \<bar>q\<bar>" "\<bar>q\<bar> \<le> 16384"
  have "pow2 (- 1000) \<le> pow2 (- 7)" by (rule pow2_le) simp
  moreover have "pow2 14 \<le> pow2 1000" by (rule pow2_le) simp
  moreover have "pow2 (- 7) = 1 / 128" "pow2 14 = 16384" by (simp_all add: pow2_def)
  ultimately show ?thesis using a by (simp add: money_range_def)
qed

lemma money_range_values:
  "money_range (100 * gbp_value)" "money_range (7 / 2 * gbp_value)"
  "money_range (7 / 2 * eur_value)" "money_range (7 / 2 * inr_value)"
  by (rule money_range_moderate; simp add: gbp_value_def eur_value_def inr_value_def)+

subsection \<open>The derived columns\<close>

text \<open>
  Claim C3. On a table whose market caps are floats, with a rate for each of GBP, EUR
  and INR, \<open>transform\<close> succeeds and adds exactly three columns after the original
  ones, in the order \<open>MC_GBP_Billion\<close>, \<open>MC_EUR_Billion\<close>, \<open>MC_INR_Billion\<close>; the value of
  each record is what numpy computes for its market cap times the rate, and for a finite
  market cap \<open>a\<close> and a finite rate \<open>b\<close> whose product is in range this value is the real
  product \<open>a * b\<close> rounded to two decimals, in the sense of \<open>round2_of\<close>. In the scenario
  of the specification (rates 0.8, 0.93, 82.95, market cap 100.0) the values are 80.0,
  93.0 and 8295.0; for a market cap of 3.5 they are 2.8, 3.26 and 290.32, where the
  float products are 2.8000000000000003, 3.2550000000000003 and 290.325: these are the
  instances proved after the theorem.
\<close>

theorem transform_appends_rounded_products:
  assumes "exchange_rate_dict csv = Inr d"
    and "dict_get d ''GBP'' = Inr (Num gbp)"
    and "dict_get d ''EUR'' = Inr (Num eur)"
    and "dict_get d ''INR'' = Inr (Num inr)"
    and "get_column df ''MC_USD_Billion'' = Inr (map Num xs)"
    and "set derived_labels \<inter> set (map fst df) = {}"
  shows "transform df csv =
           Inr (df @ [(''MC_GBP_Billion'', map (\<lambda>x. Num (np_round2 (fmul x gbp))) xs),
                      (''MC_EUR_Billion'', map (\<lambda>x. Num (np_round2 (fmul x eur))) xs),
                      (''MC_INR_Billion'', map (\<lambda>x. Num (np_round2 (fmul x inr))) xs)]) \<and>
         (\<forall>x \<in> set xs. \<forall>r \<in> {gbp, eur, inr}. \<forall>a b.
            x = Fin a \<and> r = Fin b \<and> money_range (a * b) \<longrightarrow>
              round2_of (a * b) (np_round2 (fmul x r)))"
proof -
  from assms(6) have new: "''MC_GBP_Billion'' \<notin> set (map fst df)"
    "''MC_EUR_Billion'' \<notin> set (map fst df)" "''MC_INR_Billion'' \<notin> set (map fst df)"
    by (auto simp: derived_labels_def)
  from assms(5) have xs: "map_of df ''MC_USD_Billion'' = Some (map Num xs)"
    by (simp add: get_column_Inr)
  let ?g = "map (\<lambda>x. Num (np_round2 (fmul x gbp))) xs"
  let ?e = "map (\<lambda>x. Num (np_round2 (fmul x eur))) xs"
  let ?i = "map (\<lambda>x. Num (np_round2 (fmul x inr))) xs"
  have 1: "set_column df ''MC_GBP_Billion'' ?g = df @ [(''MC_GBP_Billion'', ?g)]"
    using new(1) by (rule set_column_new)
  have 2: "set_column (df @ [(''MC_GBP_Billion'', ?g)]) ''MC_EUR_Billion'' ?e
             = df @ [(''MC_GBP_Billion'', ?g), (''MC_EUR_Billion'', ?e)]"
    using new(2) by (simp add: set_column_new)
  have 3: "set_column (df @ [(''MC_GBP_Billion'', ?g), (''MC_EUR_Billion'', ?e)]) ''MC_INR_Billion'' ?i
             = df @ [(''MC_GBP_Billion'', ?g), (''MC_EUR_Billion'', ?e), (''MC_INR_Billion'', ?i)]"
    using new(3) by (simp add: set_column_new)
  have "transform df csv =
          Inr (df @ [(''MC_GBP_Billion'', ?g), (''MC_EUR_Billion'', ?e), (''MC_INR_Billion'', ?i)])"
    unfolding transform_Inr
    using assms(1) xs convert_column_floats [OF assms(2)] convert_column_floats [OF assms(3)]
      convert_column_floats [OF assms(4)] 1 2 3
    by (metis (no_types, lifting))
  moreover have "\<forall>x \<in> set xs. \<forall>r \<in> {gbp, eur, inr}. \<forall>a b.
      x = Fin a \<and> r = Fin b \<and> money_range (a * b) \<longrightarrow> round2_of (a * b) (np_round2 (fmul x r))"
    using rounded_product by blast
  ultimately show ?thesis by (rule conjI)
qed

theorem transform_appends_rounded_products_witness:
  "transform rounding_table scenario_rates =
     Inr (rounding_table @
            [(''MC_GBP_Billion'', [Num (Fin 80), Num float_2_8]),
             (''MC_EUR_Billion'', [Num (Fin 93), Num float_3_26]),
             (''MC_INR_Billion'', [Num (Fin 8295), Num float_290_32])]) \<and>
   round2_of (100 * gbp_value) (Fin 80) \<and> round2_of (7 / 2 * gbp_value) float_2_8 \<and>
   round2_of (7 / 2 * eur_value) float_3_26 \<and> round2_of (7 / 2 * inr_value) float_290_32"
proof -
  let ?d = "[(Str ''GBP'', Num gbp_rate), (Str ''EUR'', Num eur_rate), (Str ''INR'', Num inr_rate)]"
  have g: "dict_get ?d ''GBP'' = Inr (Num gbp_rate)"
    and e: "dict_get ?d ''EUR'' = Inr (Num eur_rate)"
    and i: "dict_get ?d ''INR'' = Inr (Num inr_rate)"
    by (simp_all add: dict_get_def)
  have c: "get_column rounding_table ''MC_USD_Billion'' = Inr (map Num [Fin 100, Fin (7 / 2)])"
    by (simp add: rounding_table_def get_column_def)
  have l: "set derived_labels \<inter> set (map fst rounding_table) = {}"
    by (simp add: rounding_table_def derived_labels_def)
  note t = transform_appends_rounded_products [OF scenario_dict g e i c l]
  from t have "transform rounding_table scenario_rates =
     Inr (rounding_table @
            [(''MC_GBP_Billion'', [Num (Fin 80), Num float_2_8]),
             (''MC_EUR_Billion'', [Num (Fin 93), Num float_3_26]),
             (''MC_INR_Billion'', [Num (Fin 8295), Num float_290_32])])"
    by (simp add: scenario_products rounding_products)
  moreover from t have r: "\<And>x r a b. x \<in> set [Fin 100, Fin (7 / 2)] \<Longrightarrow>
      r \<in> {gbp_rate, eur_rate, inr_rate} \<Longrightarrow> x = Fin a \<Longrightarrow> r = Fin b \<Longrightarrow> money_range (a * b) \<Longrightarrow>
      round2_of (a * b) (np_round2 (fmul x r))"
    by blast
  have "round2_of (100 * gbp_value) (np_round2 (fmul (Fin 100) gbp_rate))"
    by (rule r) (use money_range_values in \<open>simp_all add: rate_values\<close>)
  moreover have "round2_of (7 / 2 * gbp_value) (np_round2 (fmul (Fin (7 / 2)) gbp_rate))"
    by (rule r) (use money_range_values in \<open>simp_all add: rate_values\<close>)
  moreover have "round2_of (7 / 2 * eur_value) (np_round2 (fmul (Fin (7 / 2)) eur_rate))"
    by (rule r) (use money_range_values in \<open>simp_all add: rate_values\<close>)
  moreover have "round2_of (7 / 2 * inr_value) (np_round2 (fmul (Fin (7 / 2)) inr_rate))"
    by (rule r) (use money_range_values in \<open>simp_all add: rate_values\<close>)
  ultimately show ?thesis
    by (simp add: scenario_products rounding_products)
qed

text \<open>
  Claim C8. Applying \<open>transform\<close> again to a table it has produced, with the same rate
  file, succeeds and yields the very same table: each derived column is computed from
  \<open>MC_USD_Billion\<close> and the rates alone, and is written where it already stands. So the
  values of the three derived columns are identical after the second application.
\<close>

theorem transform_idempotent:
  assumes "transform df csv = Inr df'"
  shows "transform df' csv = Inr df'"
proof -
  from assms obtain d xs g e i where
    d: "exchange_rate_dict csv = Inr d" and xs: "map_of df ''MC_USD_Billion'' = Some xs" and
    g: "convert_column d ''GBP'' xs = Inr g" and e: "convert_column d ''EUR'' xs = Inr e" and
    i: "convert_column d ''INR'' xs = Inr i" and
    df': "df' = set_column (set_column (set_column df ''MC_GBP_Billion'' g) ''MC_EUR_Billion'' e)
                ''MC_INR_Billion'' i"
    unfolding transform_Inr by blast
  have m: "map_of df' ''MC_USD_Billion'' = Some xs" "map_of df' ''MC_GBP_Billion'' = Some g"
    "map_of df' ''MC_EUR_Billion'' = Some e" "map_of df' ''MC_INR_Billion'' = Some i"
    by (simp_all add: df' map_of_set_column xs)
  have "set_column (set_column (set_column df' ''MC_GBP_Billion'' g) ''MC_EUR_Billion'' e)
                ''MC_INR_Billion'' i = df'"
    by (simp add: set_column_same m)
  with d m g e i show ?thesis
    unfolding transform_Inr by metis
qed

theorem transform_idempotent_witness:
  "transform scenario_table scenario_rates = Inr scenario_result \<and>
   transform scenario_result scenario_rates = Inr scenario_result"
  using transform_idempotent [OF scenario_transform] scenario_transform by simp

text \<open>
  Claim C10. A successful \<open>transform\<close> leaves the columns it found as they were: the
  columns \<open>Name\<close> and \<open>MC_USD_Billion\<close> hold the same values in the same order (so the
  records are as many as before and in the same order), every column other than the
  three derived ones is unchanged and stays in its place, the labels of the result are
  the old labels followed by the derived labels that were not there yet, and each
  derived column has one value per record.
\<close>

theorem transform_keeps_existing_columns:
  assumes "transform df csv = Inr df'"
  shows "get_column df' ''Name'' = get_column df ''Name'' \<and>
         get_column df' ''MC_USD_Billion'' = get_column df ''MC_USD_Billion'' \<and>
         filter (\<lambda>c. fst c \<notin> set derived_labels) df' = filter (\<lambda>c. fst c \<notin> set derived_labels) df \<and>
         map fst df' = map fst df @ filter (\<lambda>l. l \<notin> set (map fst df)) derived_labels \<and>
         (\<exists>xs g e i. get_column df ''MC_USD_Billion'' = Inr xs \<and>
            get_column df' ''MC_GBP_Billion'' = Inr g \<and> length g = length xs \<and>
            get_column df' ''MC_EUR_Billion'' = Inr e \<and> length e = length xs \<and>
            get_column df' ''MC_INR_Billion'' = Inr i \<and> length i = length xs)"
proof -
  from assms obtain d xs g e i where
    xs: "map_of df ''MC_USD_Billion'' = Some xs" and
    g: "convert_column d ''GBP'' xs = Inr g" and e: "convert_column d ''EUR'' xs = Inr e" and
    i: "convert_column d ''INR'' xs = Inr i" and
    df': "df' = set_column (set_column (set_column df ''MC_GBP_Billion'' g) ''MC_EUR_Billion'' e)
                ''MC_INR_Billion'' i"
    unfolding transform_Inr by blast
  have in_derived: "\<not> ''MC_GBP_Billion'' \<notin> set derived_labels"
    "\<not> ''MC_EUR_Billion'' \<notin> set derived_labels" "\<not> ''MC_INR_Billion'' \<notin> set derived_labels"
    by (simp_all add: derived_labels_def)
  have kept: "filter (\<lambda>c. fst c \<notin> set derived_labels) df' = filter (\<lambda>c. fst c \<notin> set derived_labels) df"
    unfolding df'
    by (simp only: filter_set_column [where P = "\<lambda>l. l \<notin> set derived_labels", OF in_derived(1)]
      filter_set_column [where P = "\<lambda>l. l \<notin> set derived_labels", OF in_derived(2)]
      filter_set_column [where P = "\<lambda>l. l \<notin> set derived_labels", OF in_derived(3)])
  have labels: "map fst df' = map fst df @ filter (\<lambda>l. l \<notin> set (map fst df)) derived_labels"
    by (simp add: df' labels_set_column derived_labels_def)
  have cols: "get_column df' ''Name'' = get_column df ''Name''"
    "get_column df' ''MC_USD_Billion'' = get_column df ''MC_USD_Billion''"
    "get_column df' ''MC_GBP_Billion'' = Inr g" "get_column df' ''MC_EUR_Billion'' = Inr e"
    "get_column df' ''MC_INR_Billion'' = Inr i"
    by (simp_all add: df' get_column_set_column)
  have "get_column df ''MC_USD_Billion'' = Inr xs"
    using xs by (simp add: get_column_Inr)
  with kept labels cols length_convert_column [OF g] length_convert_column [OF e]
    length_convert_column [OF i]
  show ?thesis by simp
qed

theorem transform_keeps_existing_columns_witness:
  "get_column scenario_result ''Name'' = get_column scenario_table ''Name'' \<and>
   get_column scenario_result ''MC_USD_Billion'' = get_column scenario_table ''MC_USD_Billion'' \<and>
   filter (\<lambda>c. fst c \<notin> set derived_labels) scenario_result
     = filter (\<lambda>c. fst c \<notin> set derived_labels) scenario_table \<and>
   map fst scenario_result
     = map fst scenario_table @ filter (\<lambda>l. l \<notin> set (map fst scenario_table)) derived_labels"
  using transform_keeps_existing_columns [OF scenario_transform] by simp

subsection \<open>Failures of the transformation\<close>

lemma dict_get_missing: "\<not> has_rate d k \<Longrightarrow> dict_get d k = Inl (KeyError k)"
  by (simp add: has_rate_def dict_get_def)

lemma dict_get_present: "has_rate d k \<Longrightarrow> \<exists>v. dict_get d k = Inr v"
  by (auto simp: has_rate_def dict_get_def)

lemma convert_column_missing:
  "\<not> has_rate d cur \<Longrightarrow> xs \<noteq> [] \<Longrightarrow> convert_column d cur xs = Inl (KeyError cur)"
  by (cases xs) (auto simp: dict_get_missing)

lemma convert_column_error:
  "has_rate d cur \<Longrightarrow> convert_column d cur xs = Inl e \<Longrightarrow> e = TypeError"
proof (induction xs)
  case Nil
  then show ?case by simp
next
  case (Cons x xs)
  from Cons.prems(1) obtain v where v: "dict_get d cur = Inr v"
    using dict_get_present by blast
  show ?case
  proof (cases "py_mul x v")
    case (Inl e')
    then have "e' = TypeError" by (cases x; cases v) auto
    with Cons.prems v Inl show ?thesis by simp
  next
    case (Inr p)
    with Cons v show ?thesis
      by (cases "convert_column d cur xs") auto
  qed
qed

lemma numeric_rate:
  assumes "list_all (\<lambda>kv. is_num (snd kv)) d" and "has_rate d k"
  shows "\<exists>r. dict_get d k = Inr (Num r)"
proof -
  from assms(2) obtain v where v: "map_of (rev d) (Str k) = Some v"
    by (auto simp: has_rate_def)
  then have "(Str k, v) \<in> set d" using map_of_SomeD by fastforce
  with assms(1) have "is_num v" by (auto simp: list_all_iff)
  then obtain r where "v = Num r" by (cases v) auto
  with v show ?thesis by (simp add: dict_get_def)
qed

lemma convert_column_numeric:
  assumes "list_all (\<lambda>kv. is_num (snd kv)) d" and "has_rate d k"
  shows "\<exists>vs. convert_column d k (map Num xs) = Inr vs"
  using numeric_rate [OF assms] convert_column_floats by blast

lemma add_currency_cases:
  "add_currency d cur label df =
     (case map_of df ''MC_USD_Billion'' of
        None \<Rightarrow> Inl (KeyError ''MC_USD_Billion'')
      | Some xs \<Rightarrow> (case convert_column d cur xs of Inl e \<Rightarrow> Inl e | Inr vs \<Rightarrow> Inr (set_column df label vs)))"
  by (simp add: add_currency_def get_column_def py_bind_def split: option.splits sum.splits)

lemma transform_cases:
  assumes "exchange_rate_dict csv = Inr d" and "map_of df ''MC_USD_Billion'' = Some xs"
  shows "transform df csv =
     (case convert_column d ''GBP'' xs of Inl e \<Rightarrow> Inl e | Inr g \<Rightarrow>
      (case convert_column d ''EUR'' xs of Inl e \<Rightarrow> Inl e | Inr e \<Rightarrow>
       (case convert_column d ''INR'' xs of Inl e \<Rightarrow> Inl e | Inr i \<Rightarrow>
          Inr (set_column (set_column (set_column df ''MC_GBP_Billion'' g) ''MC_EUR_Billion'' e)
                ''MC_INR_Billion'' i))))"
  using assms
  by (simp add: transform_def add_currency_cases map_of_set_column split: sum.splits)

lemma transform_no_column:
  assumes "exchange_rate_dict csv = Inr d" and "map_of df ''MC_USD_Billion'' = None"
  shows "transform df csv = Inl (KeyError ''MC_USD_Billion'')"
  using assms by (simp add: transform_def add_currency_cases)

lemma missing_currency_cases:
  "missing_currency d = Some cur \<longleftrightarrow>
     (cur = ''GBP'' \<and> \<not> has_rate d ''GBP'') \<or>
     (cur = ''EUR'' \<and> has_rate d ''GBP'' \<and> \<not> has_rate d ''EUR'') \<or>
     (cur = ''INR'' \<and> has_rate d ''GBP'' \<and> has_rate d ''EUR'' \<and> \<not> has_rate d ''INR'')"
  by (auto simp: missing_currency_def)

lemma missing_currency_None:
  "missing_currency d = None \<longleftrightarrow> has_rate d ''GBP'' \<and> has_rate d ''EUR'' \<and> has_rate d ''INR''"
  by (auto simp: missing_currency_def)

lemma transform_missing_numeric:
  assumes d: "exchange_rate_dict csv = Inr d" and m: "missing_currency d = Some cur"
    and n: "list_all (\<lambda>kv. is_num (snd kv)) d"
    and c: "get_column df ''MC_USD_Billion'' = Inr (map Num xs)" and x: "xs \<noteq> []"
  shows "transform df csv = Inl (KeyError cur)"
proof -
  from c have c': "map_of df ''MC_USD_Billion'' = Some (map Num xs)"
    by (simp add: get_column_Inr)
  from x have x': "map Num xs \<noteq> []" by simp
  note t = transform_cases [OF d c']
  from m consider
    (gbp) "cur = ''GBP''" "\<not> has_rate d ''GBP''"
  | (eur) "cur = ''EUR''" "has_rate d ''GBP''" "\<not> has_rate d ''EUR''"
  | (inr) "cur = ''INR''" "has_rate d ''GBP''" "has_rate d ''EUR''" "\<not> has_rate d ''INR''"
    unfolding missing_currency_cases by blast
  then show ?thesis
  proof cases
    case gbp
    then show ?thesis by (simp add: t convert_column_missing [OF _ x'])
  next
    case eur
    from convert_column_numeric [OF n eur(2)] obtain g where
      "convert_column d ''GBP'' (map Num xs) = Inr g" by blast
    with eur show ?thesis by (simp add: t convert_column_missing [OF _ x'])
  next
    case inr
    from convert_column_numeric [OF n inr(2)] obtain g where
      "convert_column d ''GBP'' (map Num xs) = Inr g" by blast
    moreover from convert_column_numeric [OF n inr(3)] obtain e where
      "convert_column d ''EUR'' (map Num xs) = Inr e" by blast
    ultimately show ?thesis using inr by (simp add: t convert_column_missing [OF _ x'])
  qed
qed

text \<open>On a table without records no rate is looked up: \<open>transform\<close> adds three empty columns.\<close>

lemma transform_no_records:
  assumes "exchange_rate_dict csv = Inr d" and "get_column df ''MC_USD_Billion'' = Inr []"
  shows "transform df csv =
           Inr (set_column (set_column (set_column df ''MC_GBP_Billion'' []) ''MC_EUR_Billion'' [])
                  ''MC_INR_Billion'' [])"
proof -
  from assms(2) have "map_of df ''MC_USD_Billion'' = Some []"
    by (simp add: get_column_Inr)
  from transform_cases [OF assms(1) this] show ?thesis by simp
qed

text \<open>With an entry for each of the three currencies no lookup of a rate fails.\<close>

lemma transform_rates_present:
  assumes d: "exchange_rate_dict csv = Inr d" and m: "missing_currency d = None"
    and k: "k \<noteq> ''MC_USD_Billion''"
  shows "transform df csv \<noteq> Inl FileNotFoundError \<and> transform df csv \<noteq> Inl (KeyError k)"
proof (cases "map_of df ''MC_USD_Billion''")
  case None
  with transform_no_column [OF d] k show ?thesis by simp
next
  case (Some xs)
  from m have h: "has_rate d ''GBP''" "has_rate d ''EUR''" "has_rate d ''INR''"
    by (simp_all add: missing_currency_None)
  have "e = TypeError" if "transform df csv = Inl e" for e
    using that unfolding transform_cases [OF d Some]
    using convert_column_error [OF h(1), of xs] convert_column_error [OF h(2), of xs]
      convert_column_error [OF h(3), of xs]
    by (auto split: sum.splits)
  then show ?thesis by auto
qed

lemma transform_no_file: "transform df None = Inl FileNotFoundError"
  by (simp add: transform_def exchange_rate_dict_def)

lemma transform_no_currency_column:
  "map_of er ''Currency'' = None \<Longrightarrow> transform df (Some er) = Inl (KeyError ''Currency'')"
  by (simp add: transform_def exchange_rate_dict_def get_column_def)

lemma transform_no_rates_column:
  "map_of er ''Currency'' = Some ks \<Longrightarrow> map_of er ''Rates'' = None \<Longrightarrow>
   transform df (Some er) = Inl (KeyError ''Rates'')"
  by (simp add: transform_def exchange_rate_dict_def get_column_def)

text \<open>
  Claim C5, as the code has it. \<open>transform\<close> raises \<open>FileNotFoundError\<close> when the rate
  file is missing and \<open>KeyError\<close> when it has no column \<open>Currency\<close> or no column
  \<open>Rates\<close>. A rate is looked up once per record. So on a table with at least one
  record, whose market caps and rates are floats, \<open>transform\<close> raises \<open>KeyError\<close> on
  the first of GBP, EUR, INR that has no rate; on a table without records no rate is
  looked up and \<open>transform\<close> succeeds, whichever currencies are absent. With both
  columns and a rate for each of the three currencies, \<open>transform\<close> raises neither
  \<open>FileNotFoundError\<close> nor a \<open>KeyError\<close> for a column of the rate file or for a
  currency.
\<close>

theorem transform_rate_source_errors:
  "transform df None = Inl FileNotFoundError \<and>
   (map_of er1 ''Currency'' = None \<longrightarrow> transform df (Some er1) = Inl (KeyError ''Currency'')) \<and>
   (map_of er2 ''Currency'' = Some ks \<and> map_of er2 ''Rates'' = None \<longrightarrow>
      transform df (Some er2) = Inl (KeyError ''Rates'')) \<and>
   (exchange_rate_dict csv3 = Inr d3 \<and> missing_currency d3 = Some cur3 \<and>
    list_all (\<lambda>kv. is_num (snd kv)) d3 \<and>
    get_column df3 ''MC_USD_Billion'' = Inr (map Num xs3) \<and> xs3 \<noteq> [] \<longrightarrow>
      transform df3 csv3 = Inl (KeyError cur3)) \<and>
   (exchange_rate_dict csv4 = Inr d4 \<and> get_column df4 ''MC_USD_Billion'' = Inr [] \<longrightarrow>
      transform df4 csv4 =
        Inr (set_column (set_column (set_column df4 ''MC_GBP_Billion'' []) ''MC_EUR_Billion'' [])
               ''MC_INR_Billion'' [])) \<and>
   (exchange_rate_dict csv5 = Inr d5 \<and> missing_currency d5 = None \<longrightarrow>
      transform df5 csv5 \<noteq> Inl FileNotFoundError \<and>
      transform df5 csv5 \<noteq> Inl (KeyError ''Currency'') \<and>
      transform df5 csv5 \<noteq> Inl (KeyError ''Rates'') \<and>
      transform df5 csv5 \<noteq> Inl (KeyError ''GBP'') \<and>
      transform df5 csv5 \<noteq> Inl (KeyError ''EUR'') \<and>
      transform df5 csv5 \<noteq> Inl (KeyError ''INR''))"
proof -
  have 5: "transform df5 csv5 \<noteq> Inl FileNotFoundError \<and>
      transform df5 csv5 \<noteq> Inl (KeyError ''Currency'') \<and>
      transform df5 csv5 \<noteq> Inl (KeyError ''Rates'') \<and>
      transform df5 csv5 \<noteq> Inl (KeyError ''GBP'') \<and>
      transform df5 csv5 \<noteq> Inl (KeyError ''EUR'') \<and>
      transform df5 csv5 \<noteq> Inl (KeyError ''INR'')"
    if "exchange_rate_dict csv5 = Inr d5" "missing_currency d5 = None"
    using transform_rates_present [OF that, of "''Currency''" df5]
      transform_rates_present [OF that, of "''Rates''" df5]
      transform_rates_present [OF that, of "''GBP''" df5]
      transform_rates_present [OF that, of "''EUR''" df5]
      transform_rates_present [OF that, of "''INR''" df5]
    by simp
  show ?thesis
    using transform_no_file transform_no_currency_column transform_no_rates_column
      transform_missing_numeric transform_no_records 5
    by blast
qed

theorem transform_rate_source_errors_witness:
  "transform scenario_table None = Inl FileNotFoundError \<and>
   transform scenario_table (Some [(''Rates'', [])]) = Inl (KeyError ''Currency'') \<and>
   transform scenario_table (Some [(''Currency'', [])]) = Inl (KeyError ''Rates'') \<and>
   transform scenario_table rates_without_eur = Inl (KeyError ''EUR'') \<and>
   transform empty_table rates_without_eur =
     Inr [(''Name'', []), (''MC_USD_Billion'', []), (''MC_GBP_Billion'', []),
          (''MC_EUR_Billion'', []), (''MC_INR_Billion'', [])] \<and>
   transform scenario_table scenario_rates \<noteq> Inl FileNotFoundError \<and>
   transform scenario_table scenario_rates \<noteq> Inl (KeyError ''Currency'') \<and>
   transform scenario_table scenario_rates \<noteq> Inl (KeyError ''Rates'') \<and>
   transform scenario_table scenario_rates \<noteq> Inl (KeyError ''GBP'') \<and>
   transform scenario_table scenario_rates \<noteq> Inl (KeyError ''EUR'') \<and>
   transform scenario_table scenario_rates \<noteq> Inl (KeyError ''INR'')"
proof -
  let ?d = "[(Str ''GBP'', Num gbp_rate), (Str ''INR'', Num inr_rate)]"
  let ?d5 = "[(Str ''GBP'', Num gbp_rate), (Str ''EUR'', Num eur_rate), (Str ''INR'', Num inr_rate)]"
  have d: "exchange_rate_dict rates_without_eur = Inr ?d"
    by (simp add: rates_without_eur_def exchange_rate_dict_def get_column_def)
  have m: "missing_currency ?d = Some ''EUR''"
    by (simp add: missing_currency_def has_rate_def)
  have n: "list_all (\<lambda>kv. is_num (snd kv)) ?d"
    by simp
  have c: "get_column scenario_table ''MC_USD_Billion'' = Inr (map Num [Fin 100])"
    by (simp add: scenario_table_def get_column_def)
  have c4: "get_column empty_table ''MC_USD_Billion'' = Inr []"
    by (simp add: empty_table_def get_column_def)
  have m5: "missing_currency ?d5 = None"
    by (simp add: missing_currency_def has_rate_def)
  have s4: "set_column (set_column (set_column empty_table ''MC_GBP_Billion'' []) ''MC_EUR_Billion'' [])
               ''MC_INR_Billion'' [] =
     [(''Name'', []), (''MC_USD_Billion'', []), (''MC_GBP_Billion'', []),
          (''MC_EUR_Billion'', []), (''MC_INR_Billion'', [])]"
    by (simp add: empty_table_def)
  show ?thesis
    using transform_rate_source_errors [of scenario_table "[(''Rates'', [])]" "[(''Currency'', [])]" "[]"
        rates_without_eur ?d "''EUR''" scenario_table "[Fin 100]"
        rates_without_eur ?d empty_table
        scenario_rates ?d5 scenario_table]
      d m n c c4 m5 s4 scenario_dict
    by simp
qed

text \<open>
  The claim as it was written fails here: the rate file has no row, so GBP has no
  rate, and \<open>transform\<close> succeeds on the table without records.
\<close>

theorem transform_empty_table_counterexample:
  "exchange_rate_dict empty_rates = Inr [] \<and> missing_currency [] = Some ''GBP'' \<and>
   transform empty_table empty_rates =
     Inr [(''Name'', []), (''MC_USD_Billion'', []), (''MC_GBP_Billion'', []),
          (''MC_EUR_Billion'', []), (''MC_INR_Billion'', [])]"
  by (simp add: empty_rates_def empty_table_def exchange_rate_dict_def get_column_def
      missing_currency_def has_rate_def transform_def add_currency_def)


subsection \<open>Loading into the database\<close>









subsection \<open>Extraction\<close>

text \<open>
  Where every table examined has a heading with a label, the loop selects the first
  table whose label is the target, and none when no label is.
\<close>

lemma find_target_labelled:
  "list_all (\<lambda>t. isl (heading_text doc (fst t)) = False) tables \<Longrightarrow>
   find_target doc tables =
     Inr (map_option snd (find (\<lambda>t. heading_text doc (fst t) = Inr target_heading) tables))"
proof (induction tables)
  case Nil
  then show ?case by simp
next
  case (Cons t tables)
  obtain i rs where t: "t = (i, rs)" by (cases t)
  from Cons.prems t obtain l where l: "heading_text doc i = Inr l"
    by (cases "heading_text doc i") auto
  from Cons t l show ?case by simp
qed

text \<open>A table without a labelled heading before it ends the loop with \<open>AttributeError\<close>.\<close>

lemma find_target_unlabelled:
  "heading_text doc i = Inl AttributeError \<Longrightarrow> find_target doc ((i, rs) # tables) = Inl AttributeError"
  by simp

text \<open>
  Rows of fewer than two cells are skipped and rows of three cells or more give one
  record each, in order; a row of exactly two cells raises \<open>IndexError\<close>.
\<close>

lemma extract_rows_records:
  "list_all (\<lambda>cols. length cols \<noteq> 2) rows \<Longrightarrow>
   extract_rows rows = Inr (map row_record (filter (\<lambda>cols. 2 \<le> length cols) rows))"
  by (induction rows) (auto simp: py_index_def row_record_def)

lemma extract_rows_two_cells:
  "\<exists>cols \<in> set rows. length cols = 2 \<Longrightarrow> extract_rows rows = Inl IndexError"
proof (induction rows)
  case Nil
  then show ?case by simp
next
  case (Cons cols rows)
  show ?case
  proof (cases "length cols = 2")
    case True
    then show ?thesis by (simp add: py_index_def)
  next
    case False
    with Cons have "extract_rows rows = Inl IndexError" by auto
    then show ?thesis by (simp add: py_index_def)
  qed
qed

text \<open>
  Claim C1 fails on the code at a row of exactly two cells. The claim has every row of
  at least two cells give one record; the guard of \<open>extract\<close> admits a row of two cells
  and the read of its third cell raises \<open>IndexError\<close>, so no table is built.
\<close>

theorem extract_two_cell_row_raises:
  "extract_table page_two_cells table_attribs = Inl IndexError"
  by code_simp

text \<open>
  Claim C4 fails on the code at a page whose first table body has no heading before
  it. The claim has \<open>extract\<close> select the first table under the heading
  \<open>By market capitalization\<close> whenever there is one; the loop reads the label of the
  heading of every table before it, and raises \<open>AttributeError\<close> at the table without
  a heading.
\<close>

theorem extract_leading_table_raises:
  "extract_table page_leading_table table_attribs = Inl AttributeError"
  by code_simp

subsection \<open>Null market caps\<close>

text \<open>In a float column a null market cap is NaN, and its derived values are NaN.\<close>

lemma round_nan: "np_round2 (fmul NaN r) = NaN"
  by (simp add: np_round2_def fmul_def frint_def fdiv_def)

lemma null_derived: "is_null (Num x) \<Longrightarrow> is_null (Num (np_round2 (fmul x r)))"
  by (simp add: is_null_def round_nan)

text \<open>A market cap that is \<open>None\<close> makes the product raise \<open>TypeError\<close>.\<close>

lemma convert_column_none:
  "has_rate d cur \<Longrightarrow> PyNone \<in> set xs \<Longrightarrow> convert_column d cur xs = Inl TypeError"
proof (induction xs)
  case Nil
  then show ?case by simp
next
  case (Cons x xs)
  from Cons.prems(1) obtain v where v: "dict_get d cur = Inr v"
    using dict_get_present by blast
  show ?case
  proof (cases "x = PyNone")
    case True
    then show ?thesis by (simp add: v)
  next
    case False
    with Cons have r: "convert_column d cur xs = Inl TypeError" by auto
    show ?thesis
    proof (cases "py_mul x v")
      case (Inl e)
      then have "e = TypeError" by (cases x; cases v) auto
      with Inl show ?thesis by (simp add: v)
    next
      case (Inr p)
      then show ?thesis by (simp add: v r)
    qed
  qed
qed

lemma transform_none_raises:
  assumes "exchange_rate_dict csv = Inr d" and "has_rate d ''GBP''"
    and "get_column df ''MC_USD_Billion'' = Inr xs" and "PyNone \<in> set xs"
  shows "transform df csv = Inl TypeError"
  using assms convert_column_none [OF assms(2) assms(4)]
  by (simp add: transform_def add_currency_def)

text \<open>
  Claim C2 fails on the code at a table whose market caps are all null. The claim has
  \<open>transform\<close> succeed with null derived values for every record whose market cap is
  null; when no market cap of the page is a number the column keeps \<open>None\<close>, and the
  product \<open>None * rate\<close> raises \<open>TypeError\<close>.
\<close>

theorem transform_all_null_raises:
  "extract_table page_na table_attribs = Inr null_table \<and>
   transform null_table scenario_rates = Inl TypeError"
  by code_simp

subsection \<open>Texts that are not numbers\<close>


















subsection \<open>Underscores\<close>











subsection \<open>The parser and the grammar\<close>













lemma lower_letter_set:
  "ascii_lower c \<in> set ''inftya'' \<Longrightarrow> c \<in> set ''inftyaINFTYA''"
  by (auto simp: ascii_lower_def split: option.splits if_splits)

lemma lower_letter:
  assumes "ascii_lower c \<in> set ''inftya''"
  shows "\<not> is_digit c" "c \<noteq> CHR ''.''" "c \<noteq> CHR ''+''" "c \<noteq> CHR ''-''" "\<not> py_isspace c"
    "float_char c"
  using lower_letter_set [OF assms]
  by (auto simp: is_digit_def py_isspace_def float_char_def)

lemma digit_not_space: "is_digit c \<Longrightarrow> \<not> py_isspace c"
  by (auto simp: is_digit_def py_isspace_def)

lemma special_chars:
  assumes "special_text b"
  shows "b \<noteq> []" and "\<forall>c \<in> set b. ascii_lower c \<in> set ''inftya''"
proof -
  from assms have l: "map ascii_lower b = ''inf'' \<or> map ascii_lower b = ''infinity'' \<or>
      map ascii_lower b = ''nan''"
    by (simp add: special_text_def)
  then show "b \<noteq> []" by auto
  from l have "set (map ascii_lower b) \<subseteq> set ''inftya''" by auto
  then show "\<forall>c \<in> set b. ascii_lower c \<in> set ''inftya''" by auto
qed





subsection \<open>The cleaned text of a cell\<close>

lemma grammar_char:
  "is_digit c \<or> c \<in> set ''.eE+-'' \<Longrightarrow> float_char c \<and> \<not> py_isspace c"
  by (auto simp: float_char_def is_digit_def py_isspace_def)

lemma sign_chars: "sign_text sg \<Longrightarrow> \<forall>c \<in> set sg. c \<in> set ''.eE+-''"
  by (auto simp: sign_text_def)

lemma digits_chars: "list_all is_digit ds \<Longrightarrow> \<forall>c \<in> set ds. is_digit c \<or> c \<in> set ''.eE+-''"
  by (simp add: list_all_iff)

lemma exponent_chars:
  assumes "exponent_text x"
  shows "\<forall>c \<in> set x. is_digit c \<or> c \<in> set ''.eE+-''"
proof -
  from assms obtain e sg ds where
    x: "e = CHR ''e'' \<or> e = CHR ''E''" "sign_text sg" "list_all is_digit ds" "x = e # sg @ ds"
    unfolding exponent_text_def by blast
  from x(1) have "e \<in> set ''.eE+-''" by auto
  with sign_chars [OF x(2)] digits_chars [OF x(3)] show ?thesis
    unfolding x(4) by (metis Un_iff set_ConsD set_append)
qed

lemma mantissa_chars:
  assumes "mantissa_text m"
  shows "\<forall>c \<in> set m. is_digit c \<or> c \<in> set ''.eE+-''"
proof -
  from assms obtain ip fp where d: "list_all is_digit ip" "list_all is_digit fp"
    and c: "m = ip \<or> m = ip @ ''.'' @ fp"
    unfolding mantissa_text_def by blast
  have "\<forall>c \<in> set (ip @ ''.'' @ fp). is_digit c \<or> c \<in> set ''.eE+-''"
    using digits_chars [OF d(1)] digits_chars [OF d(2)] by auto
  with c digits_chars [OF d(1)] show ?thesis by auto
qed

lemma number_chars:
  assumes "number_text b"
  shows "\<forall>c \<in> set b. is_digit c \<or> c \<in> set ''.eE+-''"
proof -
  from assms obtain m x where mx: "mantissa_text m" "x = [] \<or> exponent_text x" "b = m @ x"
    unfolding number_text_def by blast
  from mx(2) have "\<forall>c \<in> set x. is_digit c \<or> c \<in> set ''.eE+-''"
    using exponent_chars by auto
  with mantissa_chars [OF mx(1)] show ?thesis
    unfolding mx(3) by (metis Un_iff set_append)
qed

lemma plain_chars:
  assumes "plain_text w" and "c \<in> set w"
  shows "float_char c" and "\<not> py_isspace c"
proof -
  from assms(1) obtain sg b where s: "sign_text sg" "number_text b \<or> special_text b" "w = sg @ b"
    unfolding plain_text_def by blast
  have "float_char c \<and> \<not> py_isspace c"
  proof (cases "c \<in> set sg")
    case True
    with sign_chars [OF s(1)] show ?thesis using grammar_char by blast
  next
    case False
    with assms(2) s(3) have cb: "c \<in> set b" by simp
    from s(2) show ?thesis
    proof
      assume "number_text b"
      from number_chars [OF this] cb show ?thesis using grammar_char by blast
    next
      assume "special_text b"
      from special_chars(2) [OF this] cb have "ascii_lower c \<in> set ''inftya''" by blast
      then show ?thesis using lower_letter(5,6) by blast
    qed
  qed
  then show "float_char c" "\<not> py_isspace c" by simp_all
qed














text \<open>The grammar on its own, without the parser.\<close>

lemma float_text_with_underscore: "float_text ''1_234.56''"
proof -
  have u: "underscores_between_digits ''1_234.56''"
    unfolding underscores_between_digits_def
    by (auto simp: Cons_eq_append_conv is_digit_def)
  have "list_all is_digit ''1234''" "list_all is_digit ''56''"
    by (simp_all add: is_digit_def)
  then have "mantissa_text (''1234'' @ ''.'' @ ''56'')"
    unfolding mantissa_text_def by blast
  then have "number_text (''1234.56'' @ [])"
    unfolding number_text_def by (intro exI [of _ "''1234.56''"] exI [of _ "[]"]) simp
  then have "plain_text ([] @ ''1234.56'')"
    unfolding plain_text_def by (intro exI [of _ "[]"] exI [of _ "''1234.56''"]) (simp add: sign_text_def)
  with u show ?thesis by (simp add: float_text_def)
qed

lemma float_text_with_comma: "\<not> float_text ''1,234.56''"
proof
  assume "float_text ''1,234.56''"
  then have "plain_text ''1,234.56''" by (simp add: float_text_def)
  then have "float_char (CHR '','')" by (rule plain_chars(1)) simp
  then show False by (simp add: float_char_def is_digit_def py_isspace_def)
qed




text \<open>The whole of \<open>extract\<close> on such a page; without the comma the text is a number.\<close>

lemma extract_comma_page:
  "extract_table page_comma table_attribs =
     Inr [(''Name'', [Str ''Bank A'']), (''MC_USD_Billion'', [PyNone])]"
  by code_simp

lemma float_without_comma: "py_float ''1234.56'' = Some (Fin (2714826150374277 / 2199023255552))"
  by code_simp

end
